theory Spec2Isabelle
  imports Main "HOL-Library.AList"
begin

section \<open>The host boundary\<close>

text \<open>
  The repository class \<open>StylesheetsRepository\<close> works on a live document (or shadow root)
  and on the style engine of the host. Neither is code of the repository. The style
  engine enters the model as a record of functions (\<open>engine\<close>), so that every statement
  about parsing, serialising or declaration access is a statement about an arbitrary
  engine. The document enters as a tree of nodes.
\<close>

type_synonym declarations = "(string \<times> string) list"

text \<open>
  Rule variants: \<open>CSSStyleRule\<close> is the plain selector rule (the only variant for which
  \<open>r instanceof CSSStyleRule\<close> holds); every other rule kind is a \<open>CSSOtherRule\<close>, which
  may or may not expose \<open>selectorText\<close> and \<open>style\<close> (a page rule exposes both, a media rule
  neither).
\<close>

datatype cssrule =
    CSSStyleRule (selectorText: string) (style: declarations)
  | CSSOtherRule (otherSelectorText: "string option") (otherStyle: "declarations option")
      (otherText: string)

fun isCSSStyleRule :: "cssrule \<Rightarrow> bool" where
  "isCSSStyleRule (CSSStyleRule s st) = True"
| "isCSSStyleRule (CSSOtherRule s st t) = False"

record engine =
  parseCss :: "string \<Rightarrow> cssrule list"
  cssText :: "cssrule \<Rightarrow> string"
  setCssText :: "cssrule \<Rightarrow> string \<Rightarrow> cssrule"
  styleSetProperty :: "declarations \<Rightarrow> string \<Rightarrow> string \<Rightarrow> declarations"
  styleGetPropertyValue :: "declarations \<Rightarrow> string \<Rightarrow> string"

text \<open>
  Nodes. \<open>StyleElement\<close> is a style element that owns a style sheet of the document: its
  attributes, the live rule list of the sheet, and its textual content. \<open>Element\<close> is any
  other element (a style element without a sheet included), \<open>CharacterData\<close> a text or
  comment node. The sheet and its owner node are one value, so \<open>s.ownerNode\<close> and \<open>s\<close>
  coincide in the model.

  The tree is the tree of a connected root: a style element owns its sheet from the
  moment it is inserted, so \<open>createElement('style')\<close> is a \<open>StyleElement\<close> with an empty
  rule list. The content of a style element is text only. Sheets owned by other elements
  (a \<open>link\<close>) are not part of the model, and the root accepts any number of element
  children, as a shadow root does, so no insertion is refused. Attribute names are
  compared as they are written.
\<close>

datatype node =
    Element (tagName: string) (elementAttributes: "(string \<times> string) list")
      (childNodes: "node list")
  | StyleElement (styleAttributes: "(string \<times> string) list") (cssRules: "cssrule list")
      (textContent: string)
  | CharacterData (data: string)

definition ELEMENT_NODE :: nat where
  "ELEMENT_NODE = 1"

fun nodeType :: "node \<Rightarrow> nat" where
  "nodeType (Element t a cs) = 1"
| "nodeType (StyleElement a rs txt) = 1"
| "nodeType (CharacterData s) = 3"

fun tagNameOf :: "node \<Rightarrow> string" where
  "tagNameOf (Element t a cs) = t"
| "tagNameOf (StyleElement a rs txt) = ''STYLE''"
| "tagNameOf (CharacterData s) = []"

fun getAttribute :: "node \<Rightarrow> string \<Rightarrow> string option" where
  "getAttribute (Element t a cs) k = map_of a k"
| "getAttribute (StyleElement a rs txt) k = map_of a k"
| "getAttribute (CharacterData s) k = None"

fun setAttribute :: "node \<Rightarrow> string \<Rightarrow> string \<Rightarrow> node" where
  "setAttribute (Element t a cs) k v = Element t (AList.update k v a) cs"
| "setAttribute (StyleElement a rs txt) k v = StyleElement (AList.update k v a) rs txt"
| "setAttribute (CharacterData s) k v = CharacterData s"

text \<open>\<open>String.prototype.toLowerCase\<close> on the letters A to Z; other characters are kept.\<close>

definition toLowerChar :: "char \<Rightarrow> char" where
  "toLowerChar c =
     (if 65 \<le> (of_char c :: nat) \<and> (of_char c :: nat) \<le> 90
      then char_of (of_char c + (32 :: nat)) else c)"

definition toLowerCase :: "string \<Rightarrow> string" where
  "toLowerCase s = map toLowerChar s"

text \<open>\<open>String.prototype.endsWith\<close>.\<close>

definition endsWith :: "string \<Rightarrow> string \<Rightarrow> bool" where
  "endsWith s searchString =
     (length searchString \<le> length s \<and>
      drop (length s - length searchString) s = searchString)"

text \<open>
  \<open>Array.prototype.find(predicate, thisArg)\<close>: the second argument is the value bound to
  \<open>this\<close> inside the predicate, not a start index. An arrow function ignores it, so the
  search always starts at the first element.
\<close>

definition Array_find :: "('a \<Rightarrow> bool) \<Rightarrow> 'a list \<Rightarrow> 'b \<Rightarrow> 'a option" where
  "Array_find predicate xs thisArg = find predicate xs"

subsection \<open>Notifications\<close>

record emitter =
  emitterType :: string
  emitterId :: "string option"

datatype event =
    UnknownStylesheetEvent (stylesheetNameOf: string) (emitterOf: emitter)
  | UnknownCssRuleEvent (stylesheetNameOf: string) (selectorOf: string) (emitterOf: emitter)

fun eventType :: "event \<Rightarrow> string" where
  "eventType (UnknownStylesheetEvent n e) = ''UnknownStylesheet''"
| "eventType (UnknownCssRuleEvent n s e) = ''UnknownCssRule''"

subsection \<open>The document\<close>

text \<open>
  The root (\<open>this._document\<close>): its child nodes and the events dispatched on it so far, in
  order of dispatch.
\<close>

record document =
  docChildNodes :: "node list"
  dispatched :: "event list"

definition dispatchEvent :: "document \<Rightarrow> event \<Rightarrow> document" where
  "dispatchEvent d e = d\<lparr>dispatched := dispatched d @ [e]\<rparr>"

text \<open>\<open>document.styleSheets\<close>: the sheets of the tree, in tree order.\<close>

fun styleSheetsOf :: "node \<Rightarrow> node list" where
  "styleSheetsOf (Element t a cs) = concat (map styleSheetsOf cs)"
| "styleSheetsOf (StyleElement a rs txt) = [StyleElement a rs txt]"
| "styleSheetsOf (CharacterData s) = []"

definition styleSheets :: "document \<Rightarrow> node list" where
  "styleSheets d = concat (map styleSheetsOf (docChildNodes d))"

text \<open>
  A sheet handle is the position of the sheet in \<open>styleSheets\<close>; a rule handle is the
  pair of the sheet's position and the rule's position in \<open>cssRules\<close>. \<open>Array.from\<close>
  becomes \<open>enumerate 0\<close>, which pairs every entry with its position, so that \<open>find\<close>
  returns the reference together with the entry.
\<close>

text \<open>Mutation of the owner of the \<open>i\<close>-th sheet, in place.\<close>

fun updateSheetN :: "nat \<Rightarrow> (node \<Rightarrow> node) \<Rightarrow> node \<Rightarrow> node"
  and updateSheetL :: "nat \<Rightarrow> (node \<Rightarrow> node) \<Rightarrow> node list \<Rightarrow> node list" where
  "updateSheetN i f (Element t a cs) = Element t a (updateSheetL i f cs)"
| "updateSheetN i f (StyleElement a rs txt) =
     (if i = 0 then f (StyleElement a rs txt) else StyleElement a rs txt)"
| "updateSheetN i f (CharacterData s) = CharacterData s"
| "updateSheetL i f [] = []"
| "updateSheetL i f (n # ns) =
     (if i < length (styleSheetsOf n) then updateSheetN i f n # ns
      else n # updateSheetL (i - length (styleSheetsOf n)) f ns)"

definition updateSheet :: "nat \<Rightarrow> (node \<Rightarrow> node) \<Rightarrow> document \<Rightarrow> document" where
  "updateSheet i f d = d\<lparr>docChildNodes := updateSheetL i f (docChildNodes d)\<rparr>"

text \<open>
  \<open>ownerNode.innerHTML = contents\<close> on a style element: the content is replaced and the
  engine parses it into the new rule list of the sheet.
\<close>

fun setInnerHTML :: "engine \<Rightarrow> string \<Rightarrow> node \<Rightarrow> node" where
  "setInnerHTML h contents (StyleElement a rs txt) = StyleElement a (parseCss h contents) contents"
| "setInnerHTML h contents n = n"

text \<open>
  \<open>querySelector('head')\<close> followed by \<open>head.appendChild(new)\<close>: the new node becomes the
  last child of the first head element in tree order. The result is \<open>None\<close> when
  \<open>querySelector('head')\<close> is null.
\<close>

fun head_appendChildN :: "node \<Rightarrow> node \<Rightarrow> node option"
  and head_appendChildL :: "node \<Rightarrow> node list \<Rightarrow> node list option" where
  "head_appendChildN new (Element t a cs) =
     (if toLowerCase t = ''head'' then Some (Element t a (cs @ [new]))
      else map_option (Element t a) (head_appendChildL new cs))"
| "head_appendChildN new (StyleElement a rs txt) = None"
| "head_appendChildN new (CharacterData s) = None"
| "head_appendChildL new [] = None"
| "head_appendChildL new (n # ns) =
     (case head_appendChildN new n of
        Some n' \<Rightarrow> Some (n' # ns)
      | None \<Rightarrow> map_option ((#) n) (head_appendChildL new ns))"

section \<open>The repository (the class with strict lookups)\<close>

text \<open>
  \<open>STYLESHEET_ATTRIBUTE_NAME\<close> is imported from a constants module that is not part of the
  sources at hand; it is a field of the repository, next to \<open>_name\<close>.
\<close>

record repository =
  STYLESHEET_ATTRIBUTE_NAME :: string
  repoName :: string

definition eventEmitterType :: string where
  "eventEmitterType = ''@enhanced-dom/stylesheetsRepository''"

definition repoEmitter :: "repository \<Rightarrow> emitter" where
  "repoEmitter repo = \<lparr>emitterType = eventEmitterType, emitterId = Some (repoName repo)\<rparr>"

datatype error = TypeError

definition getStylesheet ::
  "repository \<Rightarrow> document \<Rightarrow> string \<Rightarrow> bool \<Rightarrow> document \<times> nat option" where
  "getStylesheet repo d stylesheetName strict =
     (let stylesheet =
            find (\<lambda>(i, s). getAttribute s (STYLESHEET_ATTRIBUTE_NAME repo) = Some stylesheetName)
              (enumerate 0 (styleSheets d))
      in if stylesheet = None \<and> strict
         then (dispatchEvent d (UnknownStylesheetEvent stylesheetName (repoEmitter repo)),
               map_option fst stylesheet)
         else (d, map_option fst stylesheet))"

definition isStyleNode :: "node \<Rightarrow> bool" where
  "isStyleNode n = (nodeType n = ELEMENT_NODE \<and> toLowerCase (tagNameOf n) = ''style'')"

definition isNotStyleNode :: "node \<Rightarrow> bool" where
  "isNotStyleNode n = (nodeType n \<noteq> ELEMENT_NODE \<or> toLowerCase (tagNameOf n) \<noteq> ''style'')"

definition createElement_style :: node where
  "createElement_style = StyleElement [] [] []"

definition insertBefore :: "node \<Rightarrow> nat \<Rightarrow> node list \<Rightarrow> node list" where
  "insertBefore new k ns = take k ns @ [new] @ drop k ns"

definition getOrCreateStylesheet ::
  "repository \<Rightarrow> document \<Rightarrow> string \<Rightarrow> document \<times> nat option" where
  "getOrCreateStylesheet repo d stylesheetName =
     (case getStylesheet repo d stylesheetName False of
        (d1, Some i) \<Rightarrow> getStylesheet repo d1 stylesheetName True
      | (d1, None) \<Rightarrow>
          (let stylesheetNode =
                 setAttribute createElement_style (STYLESHEET_ATTRIBUTE_NAME repo) stylesheetName;
               documentNodes = docChildNodes d1;
               d2 =
                 (case head_appendChildL stylesheetNode documentNodes of
                    Some ns \<Rightarrow> d1\<lparr>docChildNodes := ns\<rparr>
                  | None \<Rightarrow>
                      (case find (\<lambda>(k, n). isStyleNode n) (enumerate 0 documentNodes) of
                         Some (k, firstStylesheet) \<Rightarrow>
                           (case Array_find (\<lambda>(m, n). isNotStyleNode n)
                                   (enumerate 0 documentNodes) k of
                              Some (m, subsequentNode) \<Rightarrow>
                                d1\<lparr>docChildNodes := insertBefore stylesheetNode m documentNodes\<rparr>
                            | None \<Rightarrow> d1\<lparr>docChildNodes := documentNodes @ [stylesheetNode]\<rparr>)
                       | None \<Rightarrow> d1\<lparr>docChildNodes := stylesheetNode # documentNodes\<rparr>))
           in getStylesheet repo d2 stylesheetName True))"

definition createOrUpdateStylesheet ::
  "engine \<Rightarrow> repository \<Rightarrow> document \<Rightarrow> string \<Rightarrow> string \<Rightarrow> error + document" where
  "createOrUpdateStylesheet h repo d stylesheetName contents =
     (case getOrCreateStylesheet repo d stylesheetName of
        (d1, None) \<Rightarrow> Inl TypeError
      | (d1, Some i) \<Rightarrow> Inr (updateSheet i (setInnerHTML h contents) d1))"

definition serializeStylesheet :: "engine \<Rightarrow> node \<Rightarrow> string" where
  "serializeStylesheet h stylesheet = concat (map (cssText h) (cssRules stylesheet))"

definition refreshStylesheet :: "engine \<Rightarrow> nat \<Rightarrow> document \<Rightarrow> document" where
  "refreshStylesheet h i d =
     updateSheet i (\<lambda>owner. setInnerHTML h (serializeStylesheet h owner) owner) d"

definition getRule ::
  "repository \<Rightarrow> document \<Rightarrow> string \<Rightarrow> string \<Rightarrow> bool \<Rightarrow> document \<times> (nat \<times> nat) option" where
  "getRule repo d stylesheetName selector strict =
     (case getStylesheet repo d stylesheetName strict of
        (d1, None) \<Rightarrow> (d1, None)
      | (d1, Some i) \<Rightarrow>
          (let rule =
                 find (\<lambda>(j, r). endsWith (selectorText r) selector)
                   (filter (\<lambda>(j, r). isCSSStyleRule r)
                      (enumerate 0 (cssRules (styleSheets d1 ! i))))
           in if rule = None \<and> strict
              then (dispatchEvent d1
                      (UnknownCssRuleEvent stylesheetName selector (repoEmitter repo)),
                    map_option (\<lambda>(j, r). (i, j)) rule)
              else (d1, map_option (\<lambda>(j, r). (i, j)) rule)))"

text \<open>
  \<open>getOrCreateRule\<close> returns the handle of the rule, or \<open>None\<close> for \<open>undefined\<close> (the
  entry at position \<open>length - 1\<close> of an empty rule list). Reading \<open>cssRules\<close> of an
  undefined sheet is a \<open>TypeError\<close>.
\<close>

definition getOrCreateRule ::
  "engine \<Rightarrow> repository \<Rightarrow> document \<Rightarrow> string \<Rightarrow> string \<Rightarrow>
     error + document \<times> (nat \<times> nat) option" where
  "getOrCreateRule h repo d stylesheetName selector =
     (case getRule repo d stylesheetName selector False of
        (d1, Some rule) \<Rightarrow> Inr (d1, Some rule)
      | (d1, None) \<Rightarrow>
          (case getOrCreateStylesheet repo d1 stylesheetName of
             (d2, None) \<Rightarrow> Inl TypeError
           | (d2, Some i) \<Rightarrow>
               (let newContents =
                      serializeStylesheet h (styleSheets d2 ! i) @ '' '' @ selector @ ''{}''
                in case createOrUpdateStylesheet h repo d2 stylesheetName newContents of
                     Inl e \<Rightarrow> Inl e
                   | Inr d3 \<Rightarrow>
                       (case getOrCreateStylesheet repo d3 stylesheetName of
                          (d4, None) \<Rightarrow> Inl TypeError
                        | (d4, Some i') \<Rightarrow>
                            (let rules = cssRules (styleSheets d4 ! i')
                             in Inr (d4, if rules = [] then None
                                         else Some (i', length rules - 1)))))))"

text \<open>In-place mutation of the rule behind a rule handle.\<close>

fun updateRule :: "nat \<Rightarrow> (cssrule \<Rightarrow> cssrule) \<Rightarrow> node \<Rightarrow> node" where
  "updateRule j g (StyleElement a rs txt) = StyleElement a (rs[j := g (rs ! j)]) txt"
| "updateRule j g n = n"

definition ruleAt :: "document \<Rightarrow> nat \<times> nat \<Rightarrow> cssrule" where
  "ruleAt d rule = cssRules (styleSheets d ! fst rule) ! snd rule"

definition createOrUpdateRule ::
  "engine \<Rightarrow> repository \<Rightarrow> document \<Rightarrow> string \<Rightarrow> string \<Rightarrow> string \<Rightarrow> error + document" where
  "createOrUpdateRule h repo d stylesheetName selector contents =
     (case getOrCreateRule h repo d stylesheetName selector of
        Inl e \<Rightarrow> Inl e
      | Inr (d1, None) \<Rightarrow> Inl TypeError
      | Inr (d1, Some (i, j)) \<Rightarrow>
          Inr (refreshStylesheet h i
                 (updateSheet i (updateRule j (\<lambda>r. setCssText h r contents)) d1)))"

text \<open>
  \<open>rule.style\<close> is undefined on a rule kind without a declaration block, and calling
  \<open>setProperty\<close> on it is a \<open>TypeError\<close>.
\<close>

fun ruleSetProperty :: "engine \<Rightarrow> string \<Rightarrow> string \<Rightarrow> cssrule \<Rightarrow> cssrule" where
  "ruleSetProperty h variableName v (CSSStyleRule s st) =
     CSSStyleRule s (styleSetProperty h st variableName v)"
| "ruleSetProperty h variableName v (CSSOtherRule s st t) =
     CSSOtherRule s (map_option (\<lambda>x. styleSetProperty h x variableName v) st) t"

fun ruleStyle :: "cssrule \<Rightarrow> declarations option" where
  "ruleStyle (CSSStyleRule s st) = Some st"
| "ruleStyle (CSSOtherRule s st t) = st"

definition setProperty ::
  "engine \<Rightarrow> repository \<Rightarrow> document \<Rightarrow> string \<Rightarrow> string \<Rightarrow> string \<Rightarrow> string \<Rightarrow>
     error + document" where
  "setProperty h repo d stylesheetName selector variableName v =
     (case getOrCreateRule h repo d stylesheetName selector of
        Inl e \<Rightarrow> Inl e
      | Inr (d1, None) \<Rightarrow> Inl TypeError
      | Inr (d1, Some (i, j)) \<Rightarrow>
          (if ruleStyle (ruleAt d1 (i, j)) = None then Inl TypeError
           else Inr (refreshStylesheet h i
                       (updateSheet i (updateRule j (ruleSetProperty h variableName v)) d1))))"

definition getProperty ::
  "engine \<Rightarrow> repository \<Rightarrow> document \<Rightarrow> string \<Rightarrow> string \<Rightarrow> string \<Rightarrow> bool \<Rightarrow>
     document \<times> string option" where
  "getProperty h repo d stylesheetName selector variableName strict =
     (case getRule repo d stylesheetName selector strict of
        (d1, None) \<Rightarrow> (d1, None)
      | (d1, Some rule) \<Rightarrow>
          (d1, Some (styleGetPropertyValue h (style (ruleAt d1 rule)) variableName)))"

section \<open>The repository (the class without strict lookups)\<close>

text \<open>
  The second source file holds a variant of the class in which a sheet is named by its
  title, every miss is notified (there is no \<open>strict\<close> parameter), and \<open>getRule\<close> searches
  all rules without a filter on the rule kind. The emitter is a field set by the
  constructor. Reading \<open>selectorText\<close> of a rule that has none gives \<open>undefined\<close>, and
  calling \<open>endsWith\<close> on it is a \<open>TypeError\<close>.
\<close>

text \<open>
  \<open>CSSStyleSheet.title\<close>: the title attribute of the owner, null when it is absent or
  empty.
\<close>

definition sheetTitle :: "node \<Rightarrow> string option" where
  "sheetTitle s =
     (case getAttribute s ''title'' of
        Some t \<Rightarrow> (if t = [] then None else Some t)
      | None \<Rightarrow> None)"

definition legacyGetStylesheet :: "emitter \<Rightarrow> document \<Rightarrow> string \<Rightarrow> document \<times> nat option" where
  "legacyGetStylesheet em d stylesheetName =
     (let stylesheet =
            find (\<lambda>(i, s).
                    (case sheetTitle s of Some t \<Rightarrow> Some t | None \<Rightarrow> getAttribute s ''title'') =
                      Some stylesheetName)
              (enumerate 0 (styleSheets d))
      in if stylesheet = None
         then (dispatchEvent d (UnknownStylesheetEvent stylesheetName em),
               map_option fst stylesheet)
         else (d, map_option fst stylesheet))"

fun ruleSelectorText :: "cssrule \<Rightarrow> string option" where
  "ruleSelectorText (CSSStyleRule s st) = Some s"
| "ruleSelectorText (CSSOtherRule s st t) = s"

fun legacyFind :: "string \<Rightarrow> (nat \<times> cssrule) list \<Rightarrow> error + (nat \<times> cssrule) option" where
  "legacyFind selector [] = Inr None"
| "legacyFind selector ((j, r) # rs) =
     (case ruleSelectorText r of
        None \<Rightarrow> Inl TypeError
      | Some s \<Rightarrow> (if endsWith s selector then Inr (Some (j, r)) else legacyFind selector rs))"

definition legacyGetRule ::
  "emitter \<Rightarrow> document \<Rightarrow> string \<Rightarrow> string \<Rightarrow> error + document \<times> (nat \<times> nat) option" where
  "legacyGetRule em d stylesheetName selector =
     (case legacyGetStylesheet em d stylesheetName of
        (d1, None) \<Rightarrow> Inr (d1, None)
      | (d1, Some i) \<Rightarrow>
          (case legacyFind selector (enumerate 0 (cssRules (styleSheets d1 ! i))) of
             Inl e \<Rightarrow> Inl e
           | Inr None \<Rightarrow>
               Inr (dispatchEvent d1 (UnknownCssRuleEvent stylesheetName selector em), None)
           | Inr (Some (j, r)) \<Rightarrow> Inr (d1, Some (i, j))))"

section \<open>Notions used in the statements\<close>

text \<open>
  A sheet is tagged \<open>n\<close> when its owner carries the marker attribute with value \<open>n\<close>. The
  sheet is absent when no sheet of the document is tagged; it resolves to \<open>i\<close> when \<open>i\<close>
  is the position of the first tagged sheet in \<open>styleSheets\<close>.
\<close>

definition hasName :: "repository \<Rightarrow> string \<Rightarrow> node \<Rightarrow> bool" where
  "hasName repo n s = (getAttribute s (STYLESHEET_ATTRIBUTE_NAME repo) = Some n)"

definition sheetAbsent :: "repository \<Rightarrow> document \<Rightarrow> string \<Rightarrow> bool" where
  "sheetAbsent repo d n = (\<forall>s\<in>set (styleSheets d). \<not> hasName repo n s)"

definition resolvesTo :: "repository \<Rightarrow> document \<Rightarrow> string \<Rightarrow> nat \<Rightarrow> bool" where
  "resolvesTo repo d n i =
     (i < length (styleSheets d) \<and> hasName repo n (styleSheets d ! i) \<and>
      (\<forall>k<i. \<not> hasName repo n (styleSheets d ! k)))"

text \<open>
  A rule matches a selector when it is a plain selector rule whose selector text ends
  with it; \<open>firstMatch\<close> gives the position of the first such rule of a rule list.
\<close>

definition matches :: "string \<Rightarrow> cssrule \<Rightarrow> bool" where
  "matches selector r = (isCSSStyleRule r \<and> endsWith (selectorText r) selector)"

text \<open>The two notifications, with the emitter of the repository.\<close>

definition unknownStylesheet :: "repository \<Rightarrow> string \<Rightarrow> event" where
  "unknownStylesheet repo n = UnknownStylesheetEvent n (repoEmitter repo)"

definition unknownCssRule :: "repository \<Rightarrow> string \<Rightarrow> string \<Rightarrow> event" where
  "unknownCssRule repo n selector = UnknownCssRuleEvent n selector (repoEmitter repo)"

definition ruleAbsent :: "string \<Rightarrow> cssrule list \<Rightarrow> bool" where
  "ruleAbsent selector rs = (\<forall>r\<in>set rs. \<not> matches selector r)"

definition firstMatch :: "string \<Rightarrow> cssrule list \<Rightarrow> nat \<Rightarrow> bool" where
  "firstMatch selector rs j =
     (j < length rs \<and> matches selector (rs ! j) \<and> (\<forall>k<j. \<not> matches selector (rs ! k)))"

definition sheetRules :: "document \<Rightarrow> nat \<Rightarrow> cssrule list" where
  "sheetRules d i = cssRules (styleSheets d ! i)"

text \<open>A mutation of an owner node that keeps it a style element with its attributes.\<close>

definition keepsOwner :: "(node \<Rightarrow> node) \<Rightarrow> bool" where
  "keepsOwner f = (\<forall>a rs t. \<exists>rs' t'. f (StyleElement a rs t) = StyleElement a rs' t')"

text \<open>
  The node that \<open>getOrCreateStylesheet\<close> creates, and the child list after its insertion
  as the code performs it: behind the last child of the first head element, or else
  behind the leading run of style nodes among the children of the root.
\<close>

definition newSheet :: "repository \<Rightarrow> string \<Rightarrow> node" where
  "newSheet repo n = StyleElement [(STYLESHEET_ATTRIBUTE_NAME repo, n)] [] []"

definition placed :: "node \<Rightarrow> node list \<Rightarrow> node list" where
  "placed new ns =
     (case head_appendChildL new ns of
        Some ns' \<Rightarrow> ns'
      | None \<Rightarrow> takeWhile isStyleNode ns @ [new] @ dropWhile isStyleNode ns)"

text \<open>
  Following the spec's words (placement policy): append to the head container if there is
  one; else look for the first style-carrying direct child; if one is found and a
  non-style-carrying sibling occurs after it, insert immediately before that sibling; if
  one is found and no such sibling occurs after it, append at the end; if none is found,
  insert as the very first child.
\<close>

definition placementPolicy :: "node \<Rightarrow> node list \<Rightarrow> node list" where
  "placementPolicy new ns =
     (case head_appendChildL new ns of
        Some ns' \<Rightarrow> ns'
      | None \<Rightarrow>
          (case find (\<lambda>(k, n). isStyleNode n) (enumerate 0 ns) of
             Some (k, firstStylesheet) \<Rightarrow>
               (case find (\<lambda>(m, n). k < m \<and> \<not> isStyleNode n) (enumerate 0 ns) of
                  Some (m, subsequentNode) \<Rightarrow> insertBefore new m ns
                | None \<Rightarrow> ns @ [new])
           | None \<Rightarrow> new # ns))"

text \<open>The number of sheets tagged \<open>n\<close>.\<close>

definition taggedCount :: "repository \<Rightarrow> document \<Rightarrow> string \<Rightarrow> nat" where
  "taggedCount repo d n = length (filter (hasName repo n) (styleSheets d))"

text \<open>The rule list of the sheet named \<open>n\<close>; empty when there is no such sheet.\<close>

definition namedRules :: "repository \<Rightarrow> document \<Rightarrow> string \<Rightarrow> cssrule list" where
  "namedRules repo d n =
     (case snd (getStylesheet repo d n False) of Some i \<Rightarrow> sheetRules d i | None \<Rightarrow> [])"

text \<open>
  What the repository relies on the engine for. \<open>appendsEmptyRule\<close>: the serialization of
  a rule list followed by a space, a selector and \<open>{}\<close> parses into that list followed by
  an empty plain rule for the selector. \<open>reparses\<close>: the serialization of a rule list
  parses back into it. \<open>storesValue\<close>: a declaration block returns the value that was
  set.
\<close>

definition appendsEmptyRule :: "engine \<Rightarrow> cssrule list \<Rightarrow> string \<Rightarrow> bool" where
  "appendsEmptyRule h rs selector =
     (parseCss h (concat (map (cssText h) rs) @ '' '' @ selector @ ''{}'') =
        rs @ [CSSStyleRule selector []])"

definition reparses :: "engine \<Rightarrow> cssrule list \<Rightarrow> bool" where
  "reparses h rs = (parseCss h (concat (map (cssText h) rs)) = rs)"

definition storesValue :: "engine \<Rightarrow> string \<Rightarrow> string \<Rightarrow> bool" where
  "storesValue h p v = (\<forall>st. styleGetPropertyValue h (styleSetProperty h st p v) p = v)"

text \<open>
  The rule list in which \<open>setProperty\<close> writes: the rules of the named sheet, with an empty
  rule for the selector appended when none matches.
\<close>

definition targetRules :: "repository \<Rightarrow> document \<Rightarrow> string \<Rightarrow> string \<Rightarrow> cssrule list" where
  "targetRules repo d n selector =
     (if ruleAbsent selector (namedRules repo d n)
      then namedRules repo d n @ [CSSStyleRule selector []]
      else namedRules repo d n)"

section \<open>Concrete documents\<close>

text \<open>
  A repository, and a document with a head element that holds one sheet, tagged
  \<open>theme\<close>, with a media rule and two plain rules.
\<close>

definition demoRepo :: repository where
  "demoRepo = \<lparr>STYLESHEET_ATTRIBUTE_NAME = ''data-stylesheet'', repoName = ''Unknown''\<rparr>"

definition demoSheet :: node where
  "demoSheet =
     StyleElement [(''data-stylesheet'', ''theme'')]
       [CSSOtherRule None None ''@media print { }'', CSSStyleRule ''.a .b'' [],
        CSSStyleRule ''.b'' []]
       ''@media print { }.a .b { }.b { }''"

definition demoDoc :: document where
  "demoDoc =
     \<lparr>docChildNodes = [Element ''HTML'' [] [Element ''HEAD'' [] [demoSheet], Element ''BODY'' [] []]],
      dispatched = []\<rparr>"

text \<open>
  A small engine for the concrete documents. Serialisation follows the CSSOM form
  \<open>selector { name: value; }\<close>; assigning \<open>cssText\<close> changes nothing; the parser knows the
  texts that occur below.
\<close>

fun demoCssText :: "cssrule \<Rightarrow> string" where
  "demoCssText (CSSStyleRule s st) =
     s @ '' { '' @ concat (map (\<lambda>(p, v). p @ '': '' @ v @ ''; '') st) @ ''}''"
| "demoCssText (CSSOtherRule s st t) = t"

definition demoParseCss :: "string \<Rightarrow> cssrule list" where
  "demoParseCss txt =
     (if txt = '' .card{}'' then [CSSStyleRule ''.card'' []]
      else if txt = ''.card { }'' then [CSSStyleRule ''.card'' []]
      else if txt = ''.card { color: red; }'' then [CSSStyleRule ''.card'' [(''color'', ''red'')]]
      else [])"

definition demoGetPropertyValue :: "declarations \<Rightarrow> string \<Rightarrow> string" where
  "demoGetPropertyValue st p = (case map_of st p of Some v \<Rightarrow> v | None \<Rightarrow> [])"

definition demoEngine :: engine where
  "demoEngine =
     \<lparr>parseCss = demoParseCss, cssText = demoCssText, setCssText = (\<lambda>r contents. r),
      styleSetProperty = (\<lambda>st p v. AList.update p v st),
      styleGetPropertyValue = demoGetPropertyValue\<rparr>"

text \<open>
  A shadow root without a head element whose children are a \<open>div\<close>, a style element and
  a \<open>p\<close>, in this order; no sheet is tagged.
\<close>

definition mixedDoc :: document where
  "mixedDoc =
     \<lparr>docChildNodes = [Element ''DIV'' [] [], StyleElement [] [] [], Element ''P'' [] []],
      dispatched = []\<rparr>"

text \<open>
  The empty root, and the documents that \<open>getOrCreateRule\<close>, \<open>setProperty\<close> and
  \<open>createOrUpdateRule\<close> make of it for the sheet \<open>theme\<close> and the selector \<open>.card\<close>.
\<close>

definition emptyDoc :: document where
  "emptyDoc = \<lparr>docChildNodes = [], dispatched = []\<rparr>"

definition cardDoc :: document where
  "cardDoc =
     \<lparr>docChildNodes =
        [StyleElement [(''data-stylesheet'', ''theme'')] [CSSStyleRule ''.card'' []] '' .card{}''],
      dispatched = []\<rparr>"

definition redDoc :: document where
  "redDoc =
     \<lparr>docChildNodes =
        [StyleElement [(''data-stylesheet'', ''theme'')]
           [CSSStyleRule ''.card'' [(''color'', ''red'')]] ''.card { color: red; }''],
      dispatched = []\<rparr>"

definition plainDoc :: document where
  "plainDoc =
     \<lparr>docChildNodes =
        [StyleElement [(''data-stylesheet'', ''theme'')] [CSSStyleRule ''.card'' []]
           ''.card { }''],
      dispatched = []\<rparr>"

text \<open>
  A second engine, which spells things its own way, as engines do: the child combinator
  is serialized with spaces around it, a rule with the selector \<open>!!\<close> is dropped by the
  parser, and a declaration value is stored in lower case.
\<close>

definition respellParseCss :: "string \<Rightarrow> cssrule list" where
  "respellParseCss txt =
     (if txt = '' div>p{}'' then [CSSStyleRule ''div > p'' []]
      else if txt = ''div > p { color: red; }''
        then [CSSStyleRule ''div > p'' [(''color'', ''red'')]]
      else if txt = '' .card{}'' then [CSSStyleRule ''.card'' []]
      else if txt = ''.card { color: red; }'' then [CSSStyleRule ''.card'' [(''color'', ''red'')]]
      else if txt = ''.a { } !!{}'' then [CSSStyleRule ''.a'' []]
      else if txt = ''.a { color: red; }'' then [CSSStyleRule ''.a'' [(''color'', ''red'')]]
      else if txt = ''.a { } .card{}'' then [CSSStyleRule ''.a'' [], CSSStyleRule ''.card'' []]
      else [])"

definition respellEngine :: engine where
  "respellEngine =
     \<lparr>parseCss = respellParseCss, cssText = demoCssText, setCssText = (\<lambda>r contents. r),
      styleSetProperty = (\<lambda>st p v. AList.update p (toLowerCase v) st),
      styleGetPropertyValue = demoGetPropertyValue\<rparr>"

text \<open>
  A root whose only child is the sheet \<open>theme\<close> with the rule \<open>.a\<close>, and the documents
  that the operations make of it and of the empty root with the second engine.
\<close>

definition aDoc :: document where
  "aDoc =
     \<lparr>docChildNodes =
        [StyleElement [(''data-stylesheet'', ''theme'')] [CSSStyleRule ''.a'' []] ''.a { }''],
      dispatched = []\<rparr>"

definition droppedDoc :: document where
  "droppedDoc =
     \<lparr>docChildNodes =
        [StyleElement [(''data-stylesheet'', ''theme'')] [CSSStyleRule ''.a'' []]
           ''.a { } !!{}''],
      dispatched = []\<rparr>"

definition spacedDoc :: document where
  "spacedDoc =
     \<lparr>docChildNodes =
        [StyleElement [(''data-stylesheet'', ''theme'')] [CSSStyleRule ''div > p'' []]
           '' div>p{}''],
      dispatched = []\<rparr>"

definition spacedRedDoc :: document where
  "spacedRedDoc =
     \<lparr>docChildNodes =
        [StyleElement [(''data-stylesheet'', ''theme'')]
           [CSSStyleRule ''div > p'' [(''color'', ''red'')]] ''div > p { color: red; }''],
      dispatched = []\<rparr>"

section \<open>Lookups\<close>

lemma find_enumerate_None:
  "find (\<lambda>(i, x). P x) (enumerate n xs) = None \<longleftrightarrow> (\<forall>x\<in>set xs. \<not> P x)"
  by (induction xs arbitrary: n) auto

lemma find_enumerate_Some:
  "find (\<lambda>(i, x). P x) (enumerate 0 xs) = Some (i, x) \<longleftrightarrow>
     i < length xs \<and> x = xs ! i \<and> P x \<and> (\<forall>k<i. \<not> P (xs ! k))"
  unfolding find_Some_iff by (auto simp: nth_enumerate_eq)

lemma find_filter_pair:
  "find (\<lambda>(j, r). E r) (filter (\<lambda>(j, r). S r) xs) = find (\<lambda>(j, r). S r \<and> E r) xs"
  by (induction xs) auto

lemma endsWith_iff: "endsWith s t \<longleftrightarrow> (\<exists>p. s = p @ t)"
  unfolding endsWith_def
  by (metis append_eq_conv_conj append_take_drop_id diff_add_inverse2 le_add2 length_append length_drop)

lemma getStylesheet_absent:
  "sheetAbsent repo d n \<Longrightarrow>
     getStylesheet repo d n strict =
       (if strict then dispatchEvent d (unknownStylesheet repo n) else d, None)"
  by (simp add: getStylesheet_def sheetAbsent_def hasName_def find_enumerate_None
      unknownStylesheet_def)

lemma resolvesTo_find:
  "resolvesTo repo d n i \<longleftrightarrow>
     find (\<lambda>(i, s). getAttribute s (STYLESHEET_ATTRIBUTE_NAME repo) = Some n)
       (enumerate 0 (styleSheets d)) = Some (i, styleSheets d ! i)"
  by (auto simp: resolvesTo_def hasName_def find_enumerate_Some)

lemma getStylesheet_resolves:
  "resolvesTo repo d n i \<Longrightarrow> getStylesheet repo d n strict = (d, Some i)"
  by (simp add: getStylesheet_def resolvesTo_find)

lemma getStylesheet_Some:
  "getStylesheet repo d n strict = (d', Some i) \<longleftrightarrow> d' = d \<and> resolvesTo repo d n i"
proof -
  have "\<And>x. find (\<lambda>(i, s). getAttribute s (STYLESHEET_ATTRIBUTE_NAME repo) = Some n)
       (enumerate 0 (styleSheets d)) = Some x \<Longrightarrow> snd x = styleSheets d ! fst x"
    by (metis find_enumerate_Some prod.collapse)
  then show ?thesis
  by (auto simp: getStylesheet_def resolvesTo_find Let_def split: if_splits)
qed

lemma absent_or_resolves:
  "sheetAbsent repo d n \<or> (\<exists>i. resolvesTo repo d n i)"
proof (cases "find (\<lambda>(i, s). getAttribute s (STYLESHEET_ATTRIBUTE_NAME repo) = Some n)
       (enumerate 0 (styleSheets d))")
  case None
  then show ?thesis by (simp add: sheetAbsent_def hasName_def find_enumerate_None)
next
  case (Some x)
  then show ?thesis 
    by (cases x) (auto simp: find_enumerate_Some resolvesTo_def hasName_def)
qed

lemma resolvesTo_not_absent: "resolvesTo repo d n i \<Longrightarrow> \<not> sheetAbsent repo d n"
  by (auto simp: resolvesTo_def sheetAbsent_def)

lemma resolvesTo_unique: "resolvesTo repo d n i \<Longrightarrow> resolvesTo repo d n j \<Longrightarrow> i = j"
  by (metis resolvesTo_def linorder_neqE_nat)

lemma getRule_lookup:
  "getRule repo d n selector strict =
     (case getStylesheet repo d n strict of
        (d1, None) \<Rightarrow> (d1, None)
      | (d1, Some i) \<Rightarrow>
          (case find (\<lambda>(j, r). matches selector r) (enumerate 0 (sheetRules d1 i)) of
             None \<Rightarrow> (if strict then dispatchEvent d1 (unknownCssRule repo n selector) else d1, None)
           | Some (j, r) \<Rightarrow> (d1, Some (i, j))))"
proof -
  have eq: "(\<lambda>(j :: nat, r). isCSSStyleRule r \<and> endsWith (selectorText r) selector) =
      (\<lambda>(j, r). matches selector r)"
    by (simp add: matches_def)
  show ?thesis
    unfolding getRule_def find_filter_pair eq
    by (auto simp: Let_def sheetRules_def unknownCssRule_def split: prod.splits option.splits)
qed

lemma find_matches_None:
  "find (\<lambda>(j, r). matches selector r) (enumerate 0 rs) = None \<longleftrightarrow> ruleAbsent selector rs"
  by (simp add: find_enumerate_None ruleAbsent_def)

lemma find_matches_Some:
  "find (\<lambda>(j, r). matches selector r) (enumerate 0 rs) = Some (j, r) \<longleftrightarrow>
     firstMatch selector rs j \<and> r = rs ! j"
  by (auto simp: find_enumerate_Some firstMatch_def)

lemma getRule_sheet_absent:
  "sheetAbsent repo d n \<Longrightarrow>
     getRule repo d n selector strict =
       (if strict then dispatchEvent d (unknownStylesheet repo n) else d, None)"
  by (simp add: getRule_lookup getStylesheet_absent)

lemma getRule_rule_absent:
  "resolvesTo repo d n i \<Longrightarrow> ruleAbsent selector (sheetRules d i) \<Longrightarrow>
     getRule repo d n selector strict =
       (if strict then dispatchEvent d (unknownCssRule repo n selector) else d, None)"
  using find_matches_None [of selector "sheetRules d i"]
  by (simp add: getRule_lookup getStylesheet_resolves)

lemma getRule_found:
  "resolvesTo repo d n i \<Longrightarrow> firstMatch selector (sheetRules d i) j \<Longrightarrow>
     getRule repo d n selector strict = (d, Some (i, j))"
  using find_matches_Some [of selector "sheetRules d i" j "sheetRules d i ! j"]
  by (simp add: getRule_lookup getStylesheet_resolves)

lemma ruleAbsent_or_firstMatch:
  "ruleAbsent selector rs \<or> (\<exists>j. firstMatch selector rs j)"
proof (cases "find (\<lambda>(j, r). matches selector r) (enumerate 0 rs)")
  case None
  then show ?thesis by (simp add: find_matches_None)
next
  case (Some x)
  then show ?thesis by (cases x) (auto simp: find_matches_Some)
qed

lemma firstMatch_not_absent: "firstMatch selector rs j \<Longrightarrow> \<not> ruleAbsent selector rs"
  by (auto simp: firstMatch_def ruleAbsent_def)

lemma firstMatch_unique: "firstMatch selector rs j \<Longrightarrow> firstMatch selector rs k \<Longrightarrow> j = k"
  by (metis firstMatch_def linorder_neqE_nat)

lemma getRule_Some:
  "getRule repo d n selector strict = (d', Some (i, j)) \<longleftrightarrow>
     d' = d \<and> resolvesTo repo d n i \<and> firstMatch selector (sheetRules d i) j"
proof (cases "sheetAbsent repo d n")
  case True
  then show ?thesis
    using resolvesTo_not_absent [of repo d n i] by (auto simp: getRule_sheet_absent)
next
  case False
  then obtain i0 where i0: "resolvesTo repo d n i0"
    using absent_or_resolves by blast
  show ?thesis
  proof (cases "ruleAbsent selector (sheetRules d i0)")
    case True
    then show ?thesis
      using i0 firstMatch_not_absent resolvesTo_unique [OF i0, of i]
      by (auto simp: getRule_rule_absent)
  next
    case False
    then obtain j0 where j0: "firstMatch selector (sheetRules d i0) j0"
      using ruleAbsent_or_firstMatch by blast
    show ?thesis
      using i0 j0 resolvesTo_unique [OF i0, of i] firstMatch_unique [OF j0, of j]
      by (auto simp: getRule_found)
  qed
qed

lemma demo_sheets: "styleSheets demoDoc = [demoSheet]"
  by (simp add: styleSheets_def demoDoc_def demoSheet_def)

lemma demo_resolves: "resolvesTo demoRepo demoDoc ''theme'' 0"
  by (simp add: resolvesTo_def demo_sheets hasName_def demoRepo_def demoSheet_def)

lemma demo_absent: "sheetAbsent demoRepo demoDoc ''other''"
  by (simp add: sheetAbsent_def demo_sheets hasName_def demoRepo_def demoSheet_def)

lemma demo_rules:
  "sheetRules demoDoc 0 =
     [CSSOtherRule None None ''@media print { }'', CSSStyleRule ''.a .b'' [],
      CSSStyleRule ''.b'' []]"
  by (simp add: sheetRules_def demo_sheets demoSheet_def)

section \<open>Strict and silent lookups\<close>

text \<open>
  Claim C3. When no sheet of the document carries the marker attribute with value \<open>n\<close>,
  \<open>getStylesheet n true\<close> returns absent and dispatches exactly one \<open>UnknownStylesheet\<close>
  event whose \<open>stylesheetName\<close> is \<open>n\<close>, and \<open>getStylesheet n false\<close> returns absent and
  leaves the document, the dispatched events included, as it was. When a sheet carries
  the marker, the first such sheet is returned in both modes and nothing is dispatched.
\<close>

theorem getStylesheet_strictness:
  "(sheetAbsent repo d n \<longrightarrow>
      getStylesheet repo d n True =
        (d\<lparr>dispatched := dispatched d @ [UnknownStylesheetEvent n (repoEmitter repo)]\<rparr>, None) \<and>
      eventType (UnknownStylesheetEvent n (repoEmitter repo)) = ''UnknownStylesheet'' \<and>
      stylesheetNameOf (UnknownStylesheetEvent n (repoEmitter repo)) = n \<and>
      getStylesheet repo d n False = (d, None)) \<and>
   (\<not> sheetAbsent repo d n \<longrightarrow>
      (\<exists>i. resolvesTo repo d n i \<and> (\<forall>strict. getStylesheet repo d n strict = (d, Some i))))"
  using absent_or_resolves [of repo d n]
  by (auto simp: getStylesheet_absent getStylesheet_resolves dispatchEvent_def
      unknownStylesheet_def)

theorem getStylesheet_strictness_witness:
  "sheetAbsent demoRepo demoDoc ''other'' \<and>
   dispatched (fst (getStylesheet demoRepo demoDoc ''other'' True)) =
     [UnknownStylesheetEvent ''other'' (repoEmitter demoRepo)] \<and>
   getStylesheet demoRepo demoDoc ''other'' False = (demoDoc, None) \<and>
   \<not> sheetAbsent demoRepo demoDoc ''theme'' \<and>
   getStylesheet demoRepo demoDoc ''theme'' True = (demoDoc, Some 0) \<and>
   getStylesheet demoRepo demoDoc ''theme'' False = (demoDoc, Some 0)"
  using getStylesheet_strictness [of demoRepo demoDoc "''other''"]
    getStylesheet_strictness [of demoRepo demoDoc "''theme''"]
    demo_absent demo_resolves resolvesTo_not_absent [OF demo_resolves]
    resolvesTo_unique [OF demo_resolves]
  by (auto simp: demoDoc_def)

text \<open>
  Claim C4. With \<open>strict = true\<close>: when the sheet resolves and no plain selector rule's
  selector text ends with the selector, \<open>getRule\<close> returns absent and dispatches exactly
  one \<open>UnknownCssRule\<close> event that carries the sheet name and the selector; when the sheet
  is absent, \<open>getRule\<close> returns absent and the only event dispatched is the
  \<open>UnknownStylesheet\<close> event. With \<open>strict = false\<close> a miss at either level returns absent
  and dispatches nothing.
\<close>

theorem getRule_strictness:
  "(resolvesTo repo d n i \<and> ruleAbsent selector (sheetRules d i) \<longrightarrow>
      getRule repo d n selector True =
        (d\<lparr>dispatched := dispatched d @ [UnknownCssRuleEvent n selector (repoEmitter repo)]\<rparr>,
         None) \<and>
      eventType (UnknownCssRuleEvent n selector (repoEmitter repo)) = ''UnknownCssRule'' \<and>
      getRule repo d n selector False = (d, None)) \<and>
   (sheetAbsent repo d n \<longrightarrow>
      getRule repo d n selector True =
        (d\<lparr>dispatched := dispatched d @ [UnknownStylesheetEvent n (repoEmitter repo)]\<rparr>, None) \<and>
      getRule repo d n selector False = (d, None))"
  by (auto simp: getRule_rule_absent getRule_sheet_absent dispatchEvent_def
      unknownCssRule_def unknownStylesheet_def)

lemma demo_rule_absent: "ruleAbsent ''.c'' (sheetRules demoDoc 0)"
  by (simp add: ruleAbsent_def demo_rules matches_def endsWith_def)

theorem getRule_strictness_witness:
  "resolvesTo demoRepo demoDoc ''theme'' 0 \<and> ruleAbsent ''.c'' (sheetRules demoDoc 0) \<and>
   sheetAbsent demoRepo demoDoc ''other'' \<and>
   dispatched (fst (getRule demoRepo demoDoc ''theme'' ''.c'' True)) =
     [UnknownCssRuleEvent ''theme'' ''.c'' (repoEmitter demoRepo)] \<and>
   getRule demoRepo demoDoc ''theme'' ''.c'' False = (demoDoc, None) \<and>
   dispatched (fst (getRule demoRepo demoDoc ''other'' ''.c'' True)) =
     [UnknownStylesheetEvent ''other'' (repoEmitter demoRepo)] \<and>
   getRule demoRepo demoDoc ''other'' ''.c'' False = (demoDoc, None)"
  using getRule_strictness [of demoRepo demoDoc "''theme''" 0 "''.c''"]
    getRule_strictness [of demoRepo demoDoc "''other''" 0 "''.c''"]
    demo_resolves demo_rule_absent demo_absent
  by (simp add: demoDoc_def)

text \<open>
  Claim C2. For a sheet that resolves, \<open>getRule\<close> returns the first rule in the order of
  the sheet's rule list that is a plain selector rule and whose selector text ends with
  the requested fragment: rules of other kinds are skipped, and the result is absent
  exactly when no plain selector rule has such a selector text.
\<close>

theorem getRule_first_suffix_match:
  assumes "resolvesTo repo d n i"
  shows "((snd (getRule repo d n selector strict) = Some (i', j)) =
            (i' = i \<and> j < length (sheetRules d i) \<and>
             isCSSStyleRule (sheetRules d i ! j) \<and>
             (\<exists>p. selectorText (sheetRules d i ! j) = p @ selector) \<and>
             (\<forall>k<j. \<not> (isCSSStyleRule (sheetRules d i ! k) \<and>
                        (\<exists>p. selectorText (sheetRules d i ! k) = p @ selector))))) \<and>
         ((snd (getRule repo d n selector strict) = None) =
            (\<forall>r\<in>set (sheetRules d i).
               \<not> (isCSSStyleRule r \<and> (\<exists>p. selectorText r = p @ selector))))"
proof -
  have some: "snd (getRule repo d n selector strict) = Some (i', j) \<longleftrightarrow>
      resolvesTo repo d n i' \<and> firstMatch selector (sheetRules d i') j"
    using getRule_Some [of repo d n selector strict _ i' j]
    by (metis prod.collapse snd_conv)
  have first: "(snd (getRule repo d n selector strict) = Some (i', j)) =
           (i' = i \<and> j < length (sheetRules d i) \<and>
            isCSSStyleRule (sheetRules d i ! j) \<and>
            (\<exists>p. selectorText (sheetRules d i ! j) = p @ selector) \<and>
            (\<forall>k<j. \<not> (isCSSStyleRule (sheetRules d i ! k) \<and>
                       (\<exists>p. selectorText (sheetRules d i ! k) = p @ selector))))"
    unfolding some using assms resolvesTo_unique [OF assms, of i']
    by (auto simp: firstMatch_def matches_def endsWith_iff)
  have "snd (getRule repo d n selector strict) = None \<longleftrightarrow> ruleAbsent selector (sheetRules d i)"
  proof (cases "ruleAbsent selector (sheetRules d i)")
    case True
    then show ?thesis using assms by (simp add: getRule_rule_absent)
  next
    case False
    then obtain j0 where "firstMatch selector (sheetRules d i) j0"
      using ruleAbsent_or_firstMatch by blast
    then show ?thesis using assms False by (simp add: getRule_found)
  qed
  then have none: "(snd (getRule repo d n selector strict) = None) =
           (\<forall>r\<in>set (sheetRules d i).
              \<not> (isCSSStyleRule r \<and> (\<exists>p. selectorText r = p @ selector)))"
    by (simp add: ruleAbsent_def matches_def endsWith_iff)
  from first none show ?thesis by (rule conjI)
qed

theorem getRule_first_suffix_match_witness:
  "resolvesTo demoRepo demoDoc ''theme'' 0 \<and>
   sheetRules demoDoc 0 ! 1 = CSSStyleRule ''.a .b'' [] \<and>
   snd (getRule demoRepo demoDoc ''theme'' ''.b'' True) = Some (0, 1) \<and>
   snd (getRule demoRepo demoDoc ''theme'' ''.c'' True) = None"
proof -
  have b: "\<exists>p. ''.a .b'' = p @ ''.b''"
    by (rule exI [of _ "''.a ''"]) simp
  have c: "\<not> (\<exists>p. ''.a .b'' = p @ ''.c'') \<and> \<not> (\<exists>p. ''.b'' = p @ ''.c'')"
    by (simp add: endsWith_iff [symmetric] endsWith_def)
  show ?thesis
    using getRule_first_suffix_match [OF demo_resolves, of "''.b''" True 0 1]
      getRule_first_suffix_match [OF demo_resolves, of "''.c''" True] demo_resolves b c
    by (simp add: demo_rules less_Suc_eq_0_disj)
qed

text \<open>
  Claim C10. For a named sheet that exists and contains at least one plain selector rule,
  \<open>getRule\<close> with the empty string as selector returns the first plain selector rule of
  the sheet, in either mode, and leaves the document as it was: no \<open>UnknownCssRule\<close> event
  (and no other event) is dispatched.
\<close>

theorem getRule_empty_selector:
  assumes "resolvesTo repo d n i" and "\<exists>r\<in>set (sheetRules d i). isCSSStyleRule r"
  shows "\<exists>j<length (sheetRules d i).
           getRule repo d n [] strict = (d, Some (i, j)) \<and>
           isCSSStyleRule (sheetRules d i ! j) \<and>
           (\<forall>k<j. \<not> isCSSStyleRule (sheetRules d i ! k))"
proof -
  have m: "matches [] r = isCSSStyleRule r" for r
    by (simp add: matches_def endsWith_def)
  have "\<not> ruleAbsent [] (sheetRules d i)"
    using assms(2) by (simp add: ruleAbsent_def m)
  then obtain j where j: "firstMatch [] (sheetRules d i) j"
    using ruleAbsent_or_firstMatch by blast
  then have "getRule repo d n [] strict = (d, Some (i, j))"
    using assms(1) by (simp add: getRule_found)
  then show ?thesis
    using j by (auto simp: firstMatch_def m)
qed

theorem getRule_empty_selector_witness:
  "resolvesTo demoRepo demoDoc ''theme'' 0 \<and>
   (\<exists>r\<in>set (sheetRules demoDoc 0). isCSSStyleRule r) \<and>
   getRule demoRepo demoDoc ''theme'' [] True = (demoDoc, Some (0, 1))"
proof -
  have ex: "\<exists>r\<in>set (sheetRules demoDoc 0). isCSSStyleRule r"
    by (simp add: demo_rules)
  show ?thesis
    using getRule_empty_selector [OF demo_resolves ex, of True] demo_resolves ex
    by (auto simp: demo_rules less_Suc_eq_0_disj nth_Cons')
qed

text \<open>
  Claim C7. When a rule of the named sheet already matches the selector,
  \<open>getOrCreateRule\<close> returns the handle of that rule (the first match) and changes
  nothing: the document, and with it the rule list of the sheet and its length, is the
  one before the call, so no rule is appended.
\<close>

theorem getOrCreateRule_existing:
  assumes "resolvesTo repo d n i" and "firstMatch selector (sheetRules d i) j"
  shows "getOrCreateRule h repo d n selector = Inr (d, Some (i, j))"
  using assms by (simp add: getOrCreateRule_def getRule_found)

theorem getOrCreateRule_existing_witness:
  "resolvesTo demoRepo demoDoc ''theme'' 0 \<and> firstMatch ''.b'' (sheetRules demoDoc 0) 1 \<and>
   getOrCreateRule demoEngine demoRepo demoDoc ''theme'' ''.b'' = Inr (demoDoc, Some (0, 1))"
proof -
  have m: "firstMatch ''.b'' (sheetRules demoDoc 0) 1"
    by (simp add: firstMatch_def demo_rules matches_def endsWith_def)
  show ?thesis
    using getOrCreateRule_existing [OF demo_resolves m, of demoEngine] demo_resolves m
    by simp
qed

section \<open>Mutation of the tree\<close>

lemma styleSheetsOf_owner:
  "x \<in> set (styleSheetsOf n) \<Longrightarrow> \<exists>a rs t. x = StyleElement a rs t"
  by (induction n rule: styleSheetsOf.induct) auto

lemma styleSheets_owner:
  "x \<in> set (styleSheets d) \<Longrightarrow> \<exists>a rs t. x = StyleElement a rs t"
  by (auto simp: styleSheets_def dest: styleSheetsOf_owner)

lemma keepsOwner_sheets: "keepsOwner f \<Longrightarrow> styleSheetsOf (f (StyleElement a rs t)) = [f (StyleElement a rs t)]"
  unfolding keepsOwner_def by (metis styleSheetsOf.simps(2))

lemma styleSheetsOf_update:
  "keepsOwner f \<Longrightarrow>
     styleSheetsOf (updateSheetN i f n) = (styleSheetsOf n)[i := f (styleSheetsOf n ! i)]"
  "keepsOwner f \<Longrightarrow>
     concat (map styleSheetsOf (updateSheetL i f ns)) =
       (concat (map styleSheetsOf ns))[i := f (concat (map styleSheetsOf ns) ! i)]"
proof (induction i f n and i f ns rule: updateSheetN_updateSheetL.induct)
  case (1 i f t a cs)
  then show ?case by simp
next
  case (2 i f a rs tx)
  then show ?case by (cases i) (simp_all add: keepsOwner_sheets)
next
  case (3 i f s)
  then show ?case by simp
next
  case (4 i f)
  then show ?case by simp
next
  case (5 i f n ns)
  then show ?case
    by (simp add: list_update_append nth_append)
qed

lemma styleSheets_updateSheet:
  "keepsOwner f \<Longrightarrow>
     styleSheets (updateSheet i f d) = (styleSheets d)[i := f (styleSheets d ! i)]"
  by (simp add: styleSheets_def updateSheet_def styleSheetsOf_update(2))

lemma dispatched_updateSheet: "dispatched (updateSheet i f d) = dispatched d"
  by (simp add: updateSheet_def)

lemma head_appendChild_sheets:
  "head_appendChildN new n = Some n' \<Longrightarrow>
     \<exists>pre post. styleSheetsOf n = pre @ post \<and> styleSheetsOf n' = pre @ styleSheetsOf new @ post"
  "head_appendChildL new ns = Some ns' \<Longrightarrow>
     \<exists>pre post. concat (map styleSheetsOf ns) = pre @ post \<and>
        concat (map styleSheetsOf ns') = pre @ styleSheetsOf new @ post"
proof (induction new n and new ns arbitrary: n' and ns' rule: head_appendChildN_head_appendChildL.induct)
  case (1 new t a cs)
  show ?case
  proof (cases "toLowerCase t = ''head''")
    case True
    with 1(2) have "n' = Element t a (cs @ [new])" by simp
    then show ?thesis
      by (intro exI [of _ "concat (map styleSheetsOf cs)"] exI [of _ "[]"]) simp
  next
    case False
    with 1(2) obtain cs' where cs': "head_appendChildL new cs = Some cs'" "n' = Element t a cs'"
      by auto
    from 1(1) [OF False cs'(1)] cs'(2) show ?thesis by simp
  qed
next
  case (2 new a rs tx)
  then show ?case by simp
next
  case (3 new s)
  then show ?case by simp
next
  case (4 new)
  then show ?case by simp
next
  case (5 new n ns)
  show ?case
  proof (cases "head_appendChildN new n")
    case None
    with 5(3) obtain ms where ms: "head_appendChildL new ns = Some ms" "ns' = n # ms"
      by auto
    from 5(2) [OF None ms(1)] obtain pre post where
      "concat (map styleSheetsOf ns) = pre @ post"
      "concat (map styleSheetsOf ms) = pre @ styleSheetsOf new @ post" by blast
    then show ?thesis using ms(2)
      by (intro exI [of _ "styleSheetsOf n @ pre"] exI [of _ post]) simp
  next
    case (Some m)
    with 5(3) have ns': "ns' = m # ns" by simp
    from 5(1) [OF Some] obtain pre post where
      "styleSheetsOf n = pre @ post" "styleSheetsOf m = pre @ styleSheetsOf new @ post" by blast
    then show ?thesis using ns'
      by (intro exI [of _ pre] exI [of _ "post @ concat (map styleSheetsOf ns)"]) simp
  qed
qed

lemma isNotStyleNode_iff: "isNotStyleNode n = (\<not> isStyleNode n)"
  by (auto simp: isNotStyleNode_def isStyleNode_def)

lemma newSheet_eq:
  "setAttribute createElement_style (STYLESHEET_ATTRIBUTE_NAME repo) n = newSheet repo n"
  by (simp add: createElement_style_def newSheet_def)

lemma takeWhile_first_failure:
  "m < length xs \<Longrightarrow> \<not> P (xs ! m) \<Longrightarrow> \<forall>k<m. P (xs ! k) \<Longrightarrow>
     takeWhile P xs = take m xs \<and> dropWhile P xs = drop m xs"
proof (induction xs arbitrary: m)
  case Nil
  then show ?case by simp
next
  case (Cons x xs)
  show ?case
  proof (cases m)
    case 0
    then show ?thesis using Cons.prems by simp
  next
    case (Suc m')
    have "P x" using Cons.prems(3) Suc by auto
    moreover have "takeWhile P xs = take m' xs \<and> dropWhile P xs = drop m' xs"
      using Cons.prems Suc by (intro Cons.IH) auto
    ultimately show ?thesis using Suc by simp
  qed
qed

lemma placement_without_head:
  "(case find (\<lambda>(k, n). isStyleNode n) (enumerate 0 ns) of
      Some (k, firstStylesheet) \<Rightarrow>
        (case Array_find (\<lambda>(m, n). isNotStyleNode n) (enumerate 0 ns) k of
           Some (m, subsequentNode) \<Rightarrow> d\<lparr>docChildNodes := insertBefore new m ns\<rparr>
         | None \<Rightarrow> d\<lparr>docChildNodes := ns @ [new]\<rparr>)
    | None \<Rightarrow> d\<lparr>docChildNodes := new # ns\<rparr>) =
   d\<lparr>docChildNodes := takeWhile isStyleNode ns @ [new] @ dropWhile isStyleNode ns\<rparr>"
proof (cases "find (\<lambda>(k, n). isStyleNode n) (enumerate 0 ns)")
  case None
  then have "\<forall>x\<in>set ns. \<not> isStyleNode x"
    by (simp add: find_enumerate_None)
  then have "takeWhile isStyleNode ns = []" "dropWhile isStyleNode ns = ns"
    by (cases ns; simp)+
  then show ?thesis using None by simp
next
  case (Some x)
  obtain k s where x: "x = (k, s)" by (cases x)
  show ?thesis
  proof (cases "find (\<lambda>(m, n). isNotStyleNode n) (enumerate 0 ns)")
    case None
    then have "\<forall>x\<in>set ns. isStyleNode x"
      by (simp add: find_enumerate_None isNotStyleNode_iff)
    then have all: "takeWhile isStyleNode ns = ns" "dropWhile isStyleNode ns = []"
      by simp_all
    show ?thesis using None Some x by (simp add: Array_find_def all)
  next
    case inner: (Some y)
    obtain m t where y: "y = (m, t)" by (cases y)
    from inner y have "m < length ns" "\<not> isStyleNode (ns ! m)" "\<forall>k<m. isStyleNode (ns ! k)"
      by (auto simp: find_enumerate_Some isNotStyleNode_iff)
    then have "takeWhile isStyleNode ns = take m ns \<and> dropWhile isStyleNode ns = drop m ns"
      by (rule takeWhile_first_failure)
    then show ?thesis using inner Some x y by (simp add: Array_find_def insertBefore_def)
  qed
qed

lemma getOrCreateStylesheet_existing:
  "resolvesTo repo d n i \<Longrightarrow> getOrCreateStylesheet repo d n = (d, Some i)"
  by (simp add: getOrCreateStylesheet_def getStylesheet_resolves)

lemma getOrCreateStylesheet_absent:
  "sheetAbsent repo d n \<Longrightarrow>
     getOrCreateStylesheet repo d n =
       getStylesheet repo (d\<lparr>docChildNodes := placed (newSheet repo n) (docChildNodes d)\<rparr>) n True"
  by (simp add: getOrCreateStylesheet_def getStylesheet_absent newSheet_eq
      placement_without_head placed_def Let_def split: option.splits)

lemma placed_sheets:
  "\<exists>pre post. concat (map styleSheetsOf ns) = pre @ post \<and>
     concat (map styleSheetsOf (placed (newSheet repo n) ns)) = pre @ [newSheet repo n] @ post"
proof (cases "head_appendChildL (newSheet repo n) ns")
  case None
  have "concat (map styleSheetsOf ns) =
      concat (map styleSheetsOf (takeWhile isStyleNode ns)) @
      concat (map styleSheetsOf (dropWhile isStyleNode ns))"
    by (metis concat_append map_append takeWhile_dropWhile_id)
  then show ?thesis using None
    by (intro exI [of _ "concat (map styleSheetsOf (takeWhile isStyleNode ns))"]
        exI [of _ "concat (map styleSheetsOf (dropWhile isStyleNode ns))"])
      (simp add: placed_def newSheet_def)
next
  case (Some ns')
  then show ?thesis
    using head_appendChild_sheets(2) [OF Some] by (simp add: placed_def newSheet_def)
qed

lemma getOrCreateStylesheet_created:
  assumes "sheetAbsent repo d n"
  shows "\<exists>d' pre post.
           getOrCreateStylesheet repo d n = (d', Some (length pre)) \<and>
           d' = d\<lparr>docChildNodes := placed (newSheet repo n) (docChildNodes d)\<rparr> \<and>
           styleSheets d = pre @ post \<and>
           styleSheets d' = pre @ [newSheet repo n] @ post \<and>
           resolvesTo repo d' n (length pre)"
proof -
  define d' where "d' = d\<lparr>docChildNodes := placed (newSheet repo n) (docChildNodes d)\<rparr>"
  obtain pre post where pp: "styleSheets d = pre @ post"
    "styleSheets d' = pre @ [newSheet repo n] @ post"
    using placed_sheets [of "docChildNodes d" repo n] by (auto simp: styleSheets_def d'_def)
  have "resolvesTo repo d' n (length pre)"
    using assms pp
    by (auto simp: resolvesTo_def sheetAbsent_def hasName_def newSheet_def nth_append)
  then show ?thesis
    using pp getOrCreateStylesheet_absent [OF assms] getStylesheet_resolves d'_def by auto
qed

lemma find_enumerate_pair_Some:
  "find P (enumerate 0 xs) = Some (i, x) \<longleftrightarrow>
     i < length xs \<and> x = xs ! i \<and> P (i, xs ! i) \<and> (\<forall>k<i. \<not> P (k, xs ! k))"
  unfolding find_Some_iff by (auto simp: nth_enumerate_eq)

lemma find_enumerate_pair_None:
  "find P (enumerate 0 xs) = None \<longleftrightarrow> (\<forall>k<length xs. \<not> P (k, xs ! k))"
  unfolding find_None_iff by (auto simp: in_set_enumerate_eq)

text \<open>
  Where the code and the placement policy of the spec agree: there is a head element, or
  no child of the root is a style node, or the first child is one.
\<close>

lemma placement_agreement:
  assumes "ns = [] \<or> isStyleNode (hd ns) \<or> (\<forall>x\<in>set ns. \<not> isStyleNode x)"
  shows "placed new ns = placementPolicy new ns"
proof (cases "head_appendChildL new ns")
  case (Some ns')
  then show ?thesis by (simp add: placed_def placementPolicy_def)
next
  case None
  show ?thesis
  proof (cases "\<forall>x\<in>set ns. \<not> isStyleNode x")
    case True
    then have "find (\<lambda>(k, n). isStyleNode n) (enumerate 0 ns) = None"
      by (simp add: find_enumerate_None)
    moreover have "takeWhile isStyleNode ns = []" "dropWhile isStyleNode ns = ns"
      using True by (cases ns; simp)+
    ultimately show ?thesis using None by (simp add: placed_def placementPolicy_def)
  next
    case False
    with assms obtain x xs where ns: "ns = x # xs" and x: "isStyleNode x"
      by (cases ns) auto
    have first: "find (\<lambda>(k, n). isStyleNode n) (enumerate 0 ns) = Some (0, x)"
      using ns x by (simp add: find_enumerate_Some)
    show ?thesis
    proof (cases "find (\<lambda>(m, n). 0 < m \<and> \<not> isStyleNode n) (enumerate 0 ns)")
      case inner: None
      then have "\<forall>k<length ns. \<not> (0 < k \<and> \<not> isStyleNode (ns ! k))"
        by (simp add: find_enumerate_pair_None)
      then have "\<forall>k<length ns. isStyleNode (ns ! k)"
        using ns x by (metis gr0I nth_Cons_0)
      then have "\<forall>y\<in>set ns. isStyleNode y"
        by (metis in_set_conv_nth)
      then have all: "takeWhile isStyleNode ns = ns" "dropWhile isStyleNode ns = []"
        by simp_all
      show ?thesis
        using None first inner by (simp add: placed_def placementPolicy_def all)
    next
      case inner: (Some y)
      obtain m t where y: "y = (m, t)" by (cases y)
      from inner y have m: "m < length ns" "0 < m" "\<not> isStyleNode (ns ! m)"
        "\<forall>k<m. \<not> (0 < k \<and> \<not> isStyleNode (ns ! k))"
        by (simp_all add: find_enumerate_pair_Some)
      have "\<forall>k<m. isStyleNode (ns ! k)"
        using m(4) ns x by (metis gr0I nth_Cons_0)
      with m(1,3) have "takeWhile isStyleNode ns = take m ns \<and> dropWhile isStyleNode ns = drop m ns"
        by (intro takeWhile_first_failure) simp_all
      then show ?thesis
        using None first inner y by (simp add: placed_def placementPolicy_def insertBefore_def)
    qed
  qed
qed

section \<open>Creation of style sheets\<close>

lemma filter_hasName_absent:
  "sheetAbsent repo d n \<Longrightarrow> filter (hasName repo n) (styleSheets d) = []"
  by (simp add: sheetAbsent_def filter_empty_conv)

lemma taggedCount_resolves: "resolvesTo repo d n i \<Longrightarrow> 1 \<le> taggedCount repo d n"
proof -
  assume "resolvesTo repo d n i"
  then have "styleSheets d ! i \<in> set (filter (hasName repo n) (styleSheets d))"
    by (simp add: resolvesTo_def)
  then have "filter (hasName repo n) (styleSheets d) \<noteq> []"
    by (metis empty_iff empty_set)
  then show ?thesis
    by (cases "filter (hasName repo n) (styleSheets d)") (simp_all add: taggedCount_def)
qed

lemma hasName_newSheet: "hasName repo n (newSheet repo n)"
  by (simp add: hasName_def newSheet_def)

text \<open>
  What the placement does when there is no head element: the new node goes behind the
  leading run of style-carrying children of the root.
\<close>

lemma getOrCreateStylesheet_placement:
  assumes "sheetAbsent repo d n"
  shows "docChildNodes (fst (getOrCreateStylesheet repo d n)) =
           (case head_appendChildL (newSheet repo n) (docChildNodes d) of
              Some ns \<Rightarrow> ns
            | None \<Rightarrow>
                takeWhile isStyleNode (docChildNodes d) @ [newSheet repo n] @
                dropWhile isStyleNode (docChildNodes d))"
  using getOrCreateStylesheet_created [OF assms] by (auto simp: placed_def)

lemma toLowerCase_demo:
  "toLowerCase ''STYLE'' = ''style''" "toLowerCase ''DIV'' = ''div''" "toLowerCase ''P'' = ''p''"
  "toLowerCase ''HTML'' = ''html''" "toLowerCase ''HEAD'' = ''head''"
  "toLowerCase ''BODY'' = ''body''"
  by code_simp+

text \<open>
  Claim C1 (the code departs from it). Evaluation of \<open>getOrCreateStylesheet\<close> on a root
  without head whose children are a \<open>div\<close>, a style element and a \<open>p\<close>: the code puts the
  new style node in front of the \<open>div\<close>, the first child that is not a style node,
  whereas the placement policy of the spec puts it behind the existing style element,
  immediately before the \<open>p\<close>.
\<close>

theorem getOrCreateStylesheet_placement_divergence:
  "docChildNodes (fst (getOrCreateStylesheet demoRepo mixedDoc ''theme'')) =
     [StyleElement [(''data-stylesheet'', ''theme'')] [] [], Element ''DIV'' [] [],
      StyleElement [] [] [], Element ''P'' [] []] \<and>
   placementPolicy (newSheet demoRepo ''theme'') (docChildNodes mixedDoc) =
     [Element ''DIV'' [] [], StyleElement [] [] [],
      StyleElement [(''data-stylesheet'', ''theme'')] [] [], Element ''P'' [] []]"
  by (simp add: getOrCreateStylesheet_def getStylesheet_def mixedDoc_def demoRepo_def
      styleSheets_def placementPolicy_def newSheet_def createElement_style_def
      isStyleNode_def isNotStyleNode_def ELEMENT_NODE_def toLowerCase_demo
      Array_find_def insertBefore_def enumerate_eq_zip upt_rec)

text \<open>
  Claim C6. \<open>getOrCreateStylesheet n\<close> returns a sheet handle; a second call in succession
  returns the same handle and leaves the document as the first call left it, so it
  creates no node; a non-strict \<open>getStylesheet n\<close> afterwards resolves to that same sheet.
  The number of sheets tagged \<open>n\<close> afterwards is one when the document had none or one
  before (in general it is the number before, raised to one when it was zero).
\<close>

theorem getOrCreateStylesheet_twice:
  "\<exists>d1 i. getOrCreateStylesheet repo d n = (d1, Some i) \<and>
      getOrCreateStylesheet repo d1 n = (d1, Some i) \<and>
      getStylesheet repo d1 n False = (d1, Some i) \<and>
      i < length (styleSheets d1) \<and> hasName repo n (styleSheets d1 ! i) \<and>
      dispatched d1 = dispatched d \<and>
      taggedCount repo d1 n = max 1 (taggedCount repo d n) \<and>
      (taggedCount repo d n \<le> 1 \<longrightarrow> taggedCount repo d1 n = 1)"
proof (cases "sheetAbsent repo d n")
  case True
  from getOrCreateStylesheet_created [OF True] obtain d1 pre post where
    c: "getOrCreateStylesheet repo d n = (d1, Some (length pre))"
      "d1 = d\<lparr>docChildNodes := placed (newSheet repo n) (docChildNodes d)\<rparr>"
      "styleSheets d = pre @ post" "styleSheets d1 = pre @ [newSheet repo n] @ post"
      "resolvesTo repo d1 n (length pre)"
    by blast
  have "filter (hasName repo n) (pre @ post) = []"
    using filter_hasName_absent [OF True] c(3) by simp
  then have count: "taggedCount repo d1 n = 1" "taggedCount repo d n = 0"
    using c(3,4) by (simp_all add: taggedCount_def hasName_newSheet)
  show ?thesis
    using c count
    by (intro exI [of _ d1] exI [of _ "length pre"])
      (simp add: getOrCreateStylesheet_existing getStylesheet_resolves resolvesTo_def)
next
  case False
  then obtain i where i: "resolvesTo repo d n i"
    using absent_or_resolves by blast
  show ?thesis
    using i taggedCount_resolves [OF i]
    by (intro exI [of _ d] exI [of _ i])
      (simp add: getOrCreateStylesheet_existing getStylesheet_resolves resolvesTo_def)
qed

theorem getOrCreateStylesheet_twice_witness:
  "taggedCount demoRepo demoDoc ''other'' \<le> 1 \<and>
   (\<exists>d1 i. getOrCreateStylesheet demoRepo demoDoc ''other'' = (d1, Some i) \<and>
      getOrCreateStylesheet demoRepo d1 ''other'' = (d1, Some i) \<and>
      getStylesheet demoRepo d1 ''other'' False = (d1, Some i) \<and>
      taggedCount demoRepo d1 ''other'' = 1)"
proof -
  have "taggedCount demoRepo demoDoc ''other'' = 0"
    using demo_absent by (simp add: taggedCount_def filter_hasName_absent)
  then show ?thesis
    using getOrCreateStylesheet_twice [of demoRepo demoDoc "''other''"] by auto
qed

section \<open>Creation and mutation of rules\<close>

lemma keepsOwner_setInnerHTML: "keepsOwner (setInnerHTML h c)"
  by (simp add: keepsOwner_def)

lemma keepsOwner_updateRule: "keepsOwner (updateRule j g)"
  by (simp add: keepsOwner_def)

lemma keepsOwner_refresh:
  "keepsOwner (\<lambda>owner. setInnerHTML h (serializeStylesheet h owner) owner)"
  by (simp add: keepsOwner_def)

lemma sheet_is_owner:
  "i < length (styleSheets d) \<Longrightarrow> \<exists>a rs t. styleSheets d ! i = StyleElement a rs t"
  using styleSheets_owner nth_mem by blast

lemma hasName_keepsOwner:
  "keepsOwner f \<Longrightarrow> hasName repo n (f (StyleElement a rs t)) = hasName repo n (StyleElement a rs t)"
  unfolding keepsOwner_def hasName_def by (metis getAttribute.simps(2))

lemma hasName_updateSheet:
  assumes "keepsOwner f" and "k < length (styleSheets d)"
  shows "hasName repo n (styleSheets (updateSheet i f d) ! k) = hasName repo n (styleSheets d ! k)"
proof -
  obtain a rs t where o: "styleSheets d ! k = StyleElement a rs t"
    using sheet_is_owner [OF assms(2)] by blast
  show ?thesis
    using assms o hasName_keepsOwner [OF assms(1), of repo n a rs t]
    by (cases "k = i") (simp_all add: styleSheets_updateSheet)
qed

lemma resolvesTo_updateSheet:
  assumes "keepsOwner f" and "resolvesTo repo d n i'"
  shows "resolvesTo repo (updateSheet i f d) n i'"
  using assms hasName_updateSheet [OF assms(1)]
  by (simp add: resolvesTo_def styleSheets_updateSheet)

lemma sheet_updateSheet:
  "keepsOwner f \<Longrightarrow> i < length (styleSheets d) \<Longrightarrow>
     styleSheets (updateSheet i f d) ! i = f (styleSheets d ! i)"
  by (simp add: styleSheets_updateSheet)

lemma after_setInnerHTML:
  assumes "resolvesTo repo d n i"
  shows "resolvesTo repo (updateSheet i (setInnerHTML h c) d) n i"
    and "sheetRules (updateSheet i (setInnerHTML h c) d) i = parseCss h c"
    and "textContent (styleSheets (updateSheet i (setInnerHTML h c) d) ! i) = c"
    and "dispatched (updateSheet i (setInnerHTML h c) d) = dispatched d"
proof -
  have i: "i < length (styleSheets d)"
    using assms by (simp add: resolvesTo_def)
  then obtain a rs t where o: "styleSheets d ! i = StyleElement a rs t"
    using sheet_is_owner by blast
  show "resolvesTo repo (updateSheet i (setInnerHTML h c) d) n i"
    using assms by (rule resolvesTo_updateSheet [OF keepsOwner_setInnerHTML])
  show "sheetRules (updateSheet i (setInnerHTML h c) d) i = parseCss h c"
    using i o by (simp add: sheetRules_def sheet_updateSheet keepsOwner_setInnerHTML)
  show "textContent (styleSheets (updateSheet i (setInnerHTML h c) d) ! i) = c"
    using i o by (simp add: sheet_updateSheet keepsOwner_setInnerHTML)
  show "dispatched (updateSheet i (setInnerHTML h c) d) = dispatched d"
    by (rule dispatched_updateSheet)
qed

lemma createOrUpdateStylesheet_resolved:
  "resolvesTo repo d n i \<Longrightarrow>
     createOrUpdateStylesheet h repo d n c = Inr (updateSheet i (setInnerHTML h c) d)"
  by (simp add: createOrUpdateStylesheet_def getOrCreateStylesheet_existing)

lemma namedRules_absent: "sheetAbsent repo d n \<Longrightarrow> namedRules repo d n = []"
  by (simp add: namedRules_def getStylesheet_absent)

lemma namedRules_resolves: "resolvesTo repo d n i \<Longrightarrow> namedRules repo d n = sheetRules d i"
  by (simp add: namedRules_def getStylesheet_resolves)

lemma getRule_miss_iff:
  "getRule repo d n selector False = (d, None) \<longleftrightarrow> ruleAbsent selector (namedRules repo d n)"
proof (cases "sheetAbsent repo d n")
  case True
  then show ?thesis
    by (simp add: getRule_sheet_absent namedRules_absent ruleAbsent_def)
next
  case False
  then obtain i where i: "resolvesTo repo d n i"
    using absent_or_resolves by blast
  show ?thesis
  proof (cases "ruleAbsent selector (sheetRules d i)")
    case True
    then show ?thesis using i by (simp add: getRule_rule_absent namedRules_resolves)
  next
    case False
    then obtain j where "firstMatch selector (sheetRules d i) j"
      using ruleAbsent_or_firstMatch by blast
    then show ?thesis using i False by (simp add: getRule_found namedRules_resolves)
  qed
qed

text \<open>The sheet that \<open>getOrCreateStylesheet\<close> returns, old or new.\<close>

lemma getOrCreateStylesheet_result:
  "\<exists>d2 i. getOrCreateStylesheet repo d n = (d2, Some i) \<and> resolvesTo repo d2 n i \<and>
      sheetRules d2 i = namedRules repo d n \<and> dispatched d2 = dispatched d \<and>
      (\<forall>i'. resolvesTo repo d n i' \<longrightarrow> d2 = d \<and> i = i')"
proof (cases "sheetAbsent repo d n")
  case True
  from getOrCreateStylesheet_created [OF True] obtain d1 pre post where
    c: "getOrCreateStylesheet repo d n = (d1, Some (length pre))"
      "d1 = d\<lparr>docChildNodes := placed (newSheet repo n) (docChildNodes d)\<rparr>"
      "styleSheets d = pre @ post" "styleSheets d1 = pre @ [newSheet repo n] @ post"
      "resolvesTo repo d1 n (length pre)"
    by blast
  have "sheetRules d1 (length pre) = []"
    using c(4) by (simp add: sheetRules_def newSheet_def)
  then have r: "sheetRules d1 (length pre) = namedRules repo d n"
    using True by (simp add: namedRules_absent)
  have u: "\<forall>i'. resolvesTo repo d n i' \<longrightarrow> d1 = d \<and> length pre = i'"
    using True resolvesTo_not_absent by blast
  have e: "dispatched d1 = dispatched d"
    by (simp add: c(2))
  from c(1) c(5) r e u show ?thesis by blast
next
  case False
  then obtain i where i: "resolvesTo repo d n i"
    using absent_or_resolves by blast
  have u: "\<forall>i'. resolvesTo repo d n i' \<longrightarrow> d = d \<and> i = i'"
    using resolvesTo_unique [OF i] by blast
  have g: "getOrCreateStylesheet repo d n = (d, Some i)"
    using i by (rule getOrCreateStylesheet_existing)
  have r: "sheetRules d i = namedRules repo d n"
    using i by (simp add: namedRules_resolves)
  from g i r u show ?thesis by blast
qed

lemma getOrCreateRule_created:
  assumes miss: "ruleAbsent selector (namedRules repo d n)"
    and sheet: "getOrCreateStylesheet repo d n = (d2, Some i)"
    and contents: "newContents = concat (map (cssText h) (namedRules repo d n)) @ '' '' @ selector @ ''{}''"
  shows "getOrCreateRule h repo d n selector =
           Inr (updateSheet i (setInnerHTML h newContents) d2,
                if parseCss h newContents = [] then None
                else Some (i, length (parseCss h newContents) - 1))"
    and "resolvesTo repo (updateSheet i (setInnerHTML h newContents) d2) n i"
    and "sheetRules (updateSheet i (setInnerHTML h newContents) d2) i = parseCss h newContents"
    and "textContent (styleSheets (updateSheet i (setInnerHTML h newContents) d2) ! i) = newContents"
    and "dispatched (updateSheet i (setInnerHTML h newContents) d2) = dispatched d"
proof -
  from getOrCreateStylesheet_result [of repo d n] sheet
  have r: "resolvesTo repo d2 n i" "sheetRules d2 i = namedRules repo d n"
    "dispatched d2 = dispatched d"
    by auto
  define d3 where "d3 = updateSheet i (setInnerHTML h newContents) d2"
  have ser: "serializeStylesheet h (styleSheets d2 ! i) @ '' '' @ selector @ ''{}'' = newContents"
    using r(2) contents by (simp add: serializeStylesheet_def sheetRules_def)
  have d3: "resolvesTo repo d3 n i" "sheetRules d3 i = parseCss h newContents"
    "textContent (styleSheets d3 ! i) = newContents" "dispatched d3 = dispatched d2"
    unfolding d3_def using after_setInnerHTML [OF r(1)] by auto
  have g: "getRule repo d n selector False = (d, None)"
    using miss by (simp add: getRule_miss_iff)
  have c: "createOrUpdateStylesheet h repo d2 n newContents = Inr d3"
    unfolding d3_def by (rule createOrUpdateStylesheet_resolved [OF r(1)])
  have s: "getOrCreateStylesheet repo d3 n = (d3, Some i)"
    by (rule getOrCreateStylesheet_existing [OF d3(1)])
  have rs: "cssRules (styleSheets d3 ! i) = parseCss h newContents"
    using d3(2) by (simp add: sheetRules_def)
  have "getOrCreateRule h repo d n selector =
           Inr (d3, if parseCss h newContents = [] then None
                else Some (i, length (parseCss h newContents) - 1))"
    unfolding getOrCreateRule_def
    by (simp only: g sheet prod.case option.case Let_def ser c sum.case s rs)
  then show "getOrCreateRule h repo d n selector =
           Inr (updateSheet i (setInnerHTML h newContents) d2,
                if parseCss h newContents = [] then None
                else Some (i, length (parseCss h newContents) - 1))"
    by (simp add: d3_def)
  show "resolvesTo repo (updateSheet i (setInnerHTML h newContents) d2) n i"
    "sheetRules (updateSheet i (setInnerHTML h newContents) d2) i = parseCss h newContents"
    "textContent (styleSheets (updateSheet i (setInnerHTML h newContents) d2) ! i) = newContents"
    "dispatched (updateSheet i (setInnerHTML h newContents) d2) = dispatched d"
    using d3 r(3) by (simp_all add: d3_def)
qed

lemma getOrCreateRule_handle:
  assumes "getOrCreateRule h repo d n selector = Inr (d1, Some (i, j))"
  shows "resolvesTo repo d1 n i \<and> j < length (sheetRules d1 i) \<and> dispatched d1 = dispatched d"
proof (cases "ruleAbsent selector (namedRules repo d n)")
  case True
  obtain d2 i2 where s: "getOrCreateStylesheet repo d n = (d2, Some i2)"
    using getOrCreateStylesheet_result [of repo d n] by blast
  define c where "c = concat (map (cssText h) (namedRules repo d n)) @ '' '' @ selector @ ''{}''"
  note r = getOrCreateRule_created [OF True s c_def, of ]
  from r(1) assms have "i = i2" "d1 = updateSheet i2 (setInnerHTML h c) d2"
    "parseCss h c \<noteq> []" "j = length (parseCss h c) - 1"
    by (auto split: if_splits)
  then show ?thesis using r(2,3,5) by (cases "parseCss h c") simp_all
next
  case False
  then obtain j0 where j0: "firstMatch selector (namedRules repo d n) j0"
    using ruleAbsent_or_firstMatch by blast
  have "\<not> sheetAbsent repo d n"
    using False by (auto simp: namedRules_absent ruleAbsent_def)
  then obtain i0 where i0: "resolvesTo repo d n i0"
    using absent_or_resolves by blast
  have "getOrCreateRule h repo d n selector = Inr (d, Some (i0, j0))"
    using i0 j0 by (simp add: getOrCreateRule_def getRule_found namedRules_resolves)
  then show ?thesis
    using assms i0 j0 by (auto simp: firstMatch_def namedRules_resolves)
qed

lemma after_mutation_refresh:
  assumes "resolvesTo repo d1 n i"
    and "d' = refreshStylesheet h i (updateSheet i (updateRule j g) d1)"
    and "rs' = (sheetRules d1 i)[j := g (sheetRules d1 i ! j)]"
  shows "resolvesTo repo d' n i \<and>
         textContent (styleSheets d' ! i) = concat (map (cssText h) rs') \<and>
         sheetRules d' i = parseCss h (concat (map (cssText h) rs')) \<and>
         dispatched d' = dispatched d1"
proof -
  have i: "i < length (styleSheets d1)"
    using assms(1) by (simp add: resolvesTo_def)
  then obtain a rs t where o: "styleSheets d1 ! i = StyleElement a rs t"
    using sheet_is_owner by blast
  define dm where "dm = updateSheet i (updateRule j g) d1"
  have m: "styleSheets dm ! i = StyleElement a (rs[j := g (rs ! j)]) t"
    "i < length (styleSheets dm)"
    using i o by (simp_all add: dm_def styleSheets_updateSheet keepsOwner_updateRule)
  have "styleSheets d' ! i =
      (\<lambda>owner. setInnerHTML h (serializeStylesheet h owner) owner) (styleSheets dm ! i)"
    unfolding assms(2) refreshStylesheet_def dm_def [symmetric]
    by (rule sheet_updateSheet [OF keepsOwner_refresh m(2)])
  then have "styleSheets d' ! i = StyleElement a (parseCss h (concat (map (cssText h) (rs[j := g (rs ! j)]))))
      (concat (map (cssText h) (rs[j := g (rs ! j)])))"
    by (simp add: m(1) serializeStylesheet_def)
  moreover have "rs' = rs[j := g (rs ! j)]"
    using o by (simp add: assms(3) sheetRules_def)
  moreover have "resolvesTo repo d' n i"
    unfolding assms(2) refreshStylesheet_def
    by (intro resolvesTo_updateSheet keepsOwner_refresh keepsOwner_updateRule assms(1))
  ultimately show ?thesis
    by (simp add: sheetRules_def assms(2) refreshStylesheet_def dispatched_updateSheet)
qed

lemma matches_self: "matches selector (CSSStyleRule selector st)"
  by (simp add: matches_def endsWith_def)

lemma firstMatch_appended:
  "ruleAbsent selector rs \<Longrightarrow> firstMatch selector (rs @ [CSSStyleRule selector st]) (length rs)"
  by (simp add: firstMatch_def ruleAbsent_def matches_self nth_append)

text \<open>The rule that \<open>getOrCreateRule\<close> hands out when the engine appends as asked.\<close>

lemma getOrCreateRule_target:
  assumes "ruleAbsent selector (namedRules repo d n) \<longrightarrow>
             appendsEmptyRule h (namedRules repo d n) selector"
    and "firstMatch selector (targetRules repo d n selector) j"
  shows "\<exists>d1 i. getOrCreateRule h repo d n selector = Inr (d1, Some (i, j)) \<and>
           resolvesTo repo d1 n i \<and> sheetRules d1 i = targetRules repo d n selector \<and>
           dispatched d1 = dispatched d"
proof (cases "ruleAbsent selector (namedRules repo d n)")
  case True
  obtain d2 i where s: "getOrCreateStylesheet repo d n = (d2, Some i)"
    using getOrCreateStylesheet_result [of repo d n] by blast
  define c where "c = concat (map (cssText h) (namedRules repo d n)) @ '' '' @ selector @ ''{}''"
  have p: "parseCss h c = namedRules repo d n @ [CSSStyleRule selector []]"
    using assms(1) True by (simp add: appendsEmptyRule_def c_def)
  have t: "targetRules repo d n selector = namedRules repo d n @ [CSSStyleRule selector []]"
    using True by (simp add: targetRules_def)
  have j: "j = length (namedRules repo d n)"
    using firstMatch_unique [OF assms(2)] firstMatch_appended [OF True, of "[]"] t by simp
  note r = getOrCreateRule_created [OF True s c_def]
  show ?thesis
    using r(2,3,5) r(1) p t j
    by (intro exI [of _ "updateSheet i (setInnerHTML h c) d2"] exI [of _ i]) simp
next
  case False
  have "\<not> sheetAbsent repo d n"
    using False by (auto simp: namedRules_absent ruleAbsent_def)
  then obtain i where i: "resolvesTo repo d n i"
    using absent_or_resolves by blast
  have t: "targetRules repo d n selector = sheetRules d i"
    using False i by (simp add: targetRules_def namedRules_resolves)
  show ?thesis
    using i t assms(2)
    by (intro exI [of _ d] exI [of _ i]) (simp add: getOrCreateRule_def getRule_found)
qed

text \<open>There is always a rule to write in: the first match, or the appended rule.\<close>

lemma targetRules_firstMatch: "\<exists>j. firstMatch selector (targetRules repo d n selector) j"
proof (cases "ruleAbsent selector (namedRules repo d n)")
  case True
  then show ?thesis
    using firstMatch_appended [OF True, of "[]"] by (auto simp: targetRules_def)
next
  case False
  then show ?thesis
    using ruleAbsent_or_firstMatch [of selector "namedRules repo d n"]
    by (simp add: targetRules_def)
qed

section \<open>Writing rules and declarations\<close>

lemma demo_getOrCreateRule:
  "getOrCreateRule demoEngine demoRepo emptyDoc ''theme'' ''.card'' = Inr (cardDoc, Some (0, 0))"
  by code_simp

lemma demo_setProperty:
  "setProperty demoEngine demoRepo emptyDoc ''theme'' ''.card'' ''color'' ''red'' = Inr redDoc"
  by code_simp

lemma demo_createOrUpdateRule:
  "createOrUpdateRule demoEngine demoRepo emptyDoc ''theme'' ''.card'' ''.card { color: blue; }'' =
     Inr plainDoc"
  by code_simp

lemma empty_absent: "sheetAbsent demoRepo emptyDoc ''theme''"
  by (simp add: sheetAbsent_def styleSheets_def emptyDoc_def)

lemma empty_namedRules: "namedRules demoRepo emptyDoc ''theme'' = []"
  using empty_absent by (rule namedRules_absent)

lemma empty_ruleAbsent: "ruleAbsent ''.card'' (namedRules demoRepo emptyDoc ''theme'')"
  by (simp add: empty_namedRules ruleAbsent_def)

lemma respell_getOrCreateRule_spaced:
  "getOrCreateRule respellEngine demoRepo emptyDoc ''theme'' ''div>p'' =
     Inr (spacedDoc, Some (0, 0))"
  by code_simp

lemma respell_getOrCreateRule_dropped:
  "getOrCreateRule respellEngine demoRepo aDoc ''theme'' ''!!'' = Inr (droppedDoc, Some (0, 0))"
  by code_simp

lemma respell_setProperty_spaced:
  "setProperty respellEngine demoRepo emptyDoc ''theme'' ''div>p'' ''color'' ''red'' =
     Inr spacedRedDoc"
  by code_simp

lemma respell_getProperty_spaced:
  "getProperty respellEngine demoRepo spacedRedDoc ''theme'' ''div>p'' ''color'' True =
     (spacedRedDoc\<lparr>dispatched :=
        [UnknownCssRuleEvent ''theme'' ''div>p'' (repoEmitter demoRepo)]\<rparr>, None)"
  by code_simp

lemma respell_setProperty_upper:
  "setProperty respellEngine demoRepo emptyDoc ''theme'' ''.card'' ''color'' ''RED'' = Inr redDoc"
  by code_simp

lemma respell_getProperty_upper:
  "getProperty respellEngine demoRepo redDoc ''theme'' ''.card'' ''color'' True =
     (redDoc, Some ''red'')"
  by code_simp

lemma a_resolves: "resolvesTo demoRepo aDoc ''theme'' 0"
  by (simp add: resolvesTo_def styleSheets_def aDoc_def hasName_def demoRepo_def)

lemma a_rules: "sheetRules aDoc 0 = [CSSStyleRule ''.a'' []]"
  by (simp add: sheetRules_def styleSheets_def aDoc_def)

lemma a_namedRules: "namedRules demoRepo aDoc ''theme'' = [CSSStyleRule ''.a'' []]"
  using namedRules_resolves [OF a_resolves] by (simp add: a_rules)

lemma a_ruleAbsent_bang: "ruleAbsent ''!!'' (namedRules demoRepo aDoc ''theme'')"
  by (simp add: a_namedRules ruleAbsent_def matches_def endsWith_def)

lemma a_ruleAbsent_card: "ruleAbsent ''.card'' (namedRules demoRepo aDoc ''theme'')"
  by (simp add: a_namedRules ruleAbsent_def matches_def endsWith_def)

lemma empty_ruleAbsent_any: "ruleAbsent selector (namedRules demoRepo emptyDoc ''theme'')"
  by (simp add: empty_namedRules ruleAbsent_def)

text \<open>
  Claim C8, as amended. When no rule of the named sheet matches the selector (the sheet
  may not exist yet, in which case it is created and has no rules), \<open>getOrCreateRule\<close>
  replaces the content of the sheet's node by the serialization of the current rule list
  followed by a space, the selector and an empty rule body \<open>{}\<close>; the sheet's rule list
  becomes the engine's parse of that text; no event is dispatched; and the handle
  returned is the one of the last rule of the parsed list (undefined when the engine
  parsed no rule at all). The returned rule is the newly parsed rule, at the end of the
  rule list, with the requested selector as its selector text, whenever the engine's
  parse of the combined text ends with a plain selector rule whose selector text is the
  selector as it was given.
\<close>

theorem getOrCreateRule_creates:
  assumes "ruleAbsent selector (namedRules repo d n)"
    and "newContents =
           concat (map (cssText h) (namedRules repo d n)) @ '' '' @ selector @ ''{}''"
  shows "\<exists>d3 i.
           getOrCreateRule h repo d n selector =
             Inr (d3, if parseCss h newContents = [] then None
                      else Some (i, length (parseCss h newContents) - 1)) \<and>
           resolvesTo repo d3 n i \<and>
           textContent (styleSheets d3 ! i) = newContents \<and>
           sheetRules d3 i = parseCss h newContents \<and>
           dispatched d3 = dispatched d \<and>
           (\<forall>rs st. parseCss h newContents = rs @ [CSSStyleRule selector st] \<longrightarrow>
              getOrCreateRule h repo d n selector = Inr (d3, Some (i, length rs)) \<and>
              length (sheetRules d3 i) = Suc (length rs) \<and>
              ruleAt d3 (i, length rs) = last (sheetRules d3 i) \<and>
              selectorText (ruleAt d3 (i, length rs)) = selector)"
proof -
  obtain d2 i where s: "getOrCreateStylesheet repo d n = (d2, Some i)"
    using getOrCreateStylesheet_result [of repo d n] by blast
  define d3 where "d3 = updateSheet i (setInnerHTML h newContents) d2"
  note r = getOrCreateRule_created [OF assms(1) s assms(2), folded d3_def]
  have "getOrCreateRule h repo d n selector = Inr (d3, Some (i, length rs)) \<and>
        length (sheetRules d3 i) = Suc (length rs) \<and>
        ruleAt d3 (i, length rs) = last (sheetRules d3 i) \<and>
        selectorText (ruleAt d3 (i, length rs)) = selector"
    if "parseCss h newContents = rs @ [CSSStyleRule selector st]" for rs st
    using that r(1) r(3) by (simp add: ruleAt_def sheetRules_def)
  then show ?thesis
    using r by blast
qed

theorem getOrCreateRule_creates_witness:
  "ruleAbsent ''.card'' (namedRules demoRepo emptyDoc ''theme'') \<and>
   parseCss demoEngine '' .card{}'' = [] @ [CSSStyleRule ''.card'' []] \<and>
   (\<exists>d3 i. getOrCreateRule demoEngine demoRepo emptyDoc ''theme'' ''.card'' =
        Inr (d3, Some (i, 0)) \<and>
      textContent (styleSheets d3 ! i) = '' .card{}'' \<and>
      selectorText (ruleAt d3 (i, 0)) = ''.card'') \<and>
   ruleAbsent ''.card'' (namedRules demoRepo aDoc ''theme'') \<and>
   parseCss respellEngine ''.a { } .card{}'' =
     [CSSStyleRule ''.a'' []] @ [CSSStyleRule ''.card'' []] \<and>
   (\<exists>d3 i. getOrCreateRule respellEngine demoRepo aDoc ''theme'' ''.card'' =
        Inr (d3, Some (i, 1)) \<and>
      textContent (styleSheets d3 ! i) = ''.a { } .card{}'' \<and>
      length (sheetRules d3 i) = 2 \<and>
      selectorText (ruleAt d3 (i, 1)) = ''.card'')"
proof -
  have p: "parseCss demoEngine '' .card{}'' = [] @ [CSSStyleRule ''.card'' []]"
    by (simp add: demoEngine_def demoParseCss_def)
  have c: "'' .card{}'' =
      concat (map (cssText demoEngine) (namedRules demoRepo emptyDoc ''theme'')) @ '' '' @
      ''.card'' @ ''{}''"
    by (simp add: empty_namedRules)
  from getOrCreateRule_creates [OF empty_ruleAbsent c] obtain d3 i where
    r: "textContent (styleSheets d3 ! i) = '' .card{}''"
      "\<forall>rs st. parseCss demoEngine '' .card{}'' = rs @ [CSSStyleRule ''.card'' st] \<longrightarrow>
         getOrCreateRule demoEngine demoRepo emptyDoc ''theme'' ''.card'' =
           Inr (d3, Some (i, length rs)) \<and>
         length (sheetRules d3 i) = Suc (length rs) \<and>
         ruleAt d3 (i, length rs) = last (sheetRules d3 i) \<and>
         selectorText (ruleAt d3 (i, length rs)) = ''.card''"
    by blast
  from r(2) p have
    "getOrCreateRule demoEngine demoRepo emptyDoc ''theme'' ''.card'' =
           Inr (d3, Some (i, length ([] :: cssrule list))) \<and>
     selectorText (ruleAt d3 (i, length ([] :: cssrule list))) = ''.card''"
    by blast
  then have first: "\<exists>d3 i. getOrCreateRule demoEngine demoRepo emptyDoc ''theme'' ''.card'' =
        Inr (d3, Some (i, 0)) \<and>
      textContent (styleSheets d3 ! i) = '' .card{}'' \<and>
      selectorText (ruleAt d3 (i, 0)) = ''.card''"
    using r(1) by auto
  have p2: "parseCss respellEngine ''.a { } .card{}'' =
      [CSSStyleRule ''.a'' []] @ [CSSStyleRule ''.card'' []]"
    by (simp add: respellEngine_def respellParseCss_def)
  have c2: "''.a { } .card{}'' =
      concat (map (cssText respellEngine) (namedRules demoRepo aDoc ''theme'')) @ '' '' @
      ''.card'' @ ''{}''"
    by (simp add: a_namedRules respellEngine_def)
  from getOrCreateRule_creates [OF a_ruleAbsent_card c2] obtain e3 k where
    r2: "textContent (styleSheets e3 ! k) = ''.a { } .card{}''"
      "\<forall>rs st. parseCss respellEngine ''.a { } .card{}'' = rs @ [CSSStyleRule ''.card'' st] \<longrightarrow>
         getOrCreateRule respellEngine demoRepo aDoc ''theme'' ''.card'' =
           Inr (e3, Some (k, length rs)) \<and>
         length (sheetRules e3 k) = Suc (length rs) \<and>
         ruleAt e3 (k, length rs) = last (sheetRules e3 k) \<and>
         selectorText (ruleAt e3 (k, length rs)) = ''.card''"
    by blast
  from r2(2) p2 have
    "getOrCreateRule respellEngine demoRepo aDoc ''theme'' ''.card'' =
           Inr (e3, Some (k, length [CSSStyleRule ''.a'' []])) \<and>
     length (sheetRules e3 k) = Suc (length [CSSStyleRule ''.a'' []]) \<and>
     selectorText (ruleAt e3 (k, length [CSSStyleRule ''.a'' []])) = ''.card''"
    by blast
  then have second: "\<exists>d3 i. getOrCreateRule respellEngine demoRepo aDoc ''theme'' ''.card'' =
        Inr (d3, Some (i, 1)) \<and>
      textContent (styleSheets d3 ! i) = ''.a { } .card{}'' \<and>
      length (sheetRules d3 i) = 2 \<and>
      selectorText (ruleAt d3 (i, 1)) = ''.card''"
    using r2(1) by auto
  from empty_ruleAbsent p first a_ruleAbsent_card p2 second show ?thesis
    by (intro conjI)
qed

text \<open>
  Claim C8 as stated fails where the engine does not keep the selector as it was given.
  With an engine that serializes the child combinator with spaces, the rule returned for
  \<open>div>p\<close> has the selector text \<open>div > p\<close>. With an engine that drops the rule for \<open>!!\<close>,
  the last rule of the parsed list, which is returned, is the rule \<open>.a\<close> that the sheet
  held before, and no rule was appended.
\<close>

theorem getOrCreateRule_selector_counterexample:
  "ruleAbsent ''div>p'' (namedRules demoRepo emptyDoc ''theme'') \<and>
   getOrCreateRule respellEngine demoRepo emptyDoc ''theme'' ''div>p'' =
     Inr (spacedDoc, Some (0, 0)) \<and>
   selectorText (ruleAt spacedDoc (0, 0)) = ''div > p'' \<and>
   selectorText (ruleAt spacedDoc (0, 0)) \<noteq> ''div>p'' \<and>
   ruleAbsent ''!!'' (namedRules demoRepo aDoc ''theme'') \<and>
   getOrCreateRule respellEngine demoRepo aDoc ''theme'' ''!!'' = Inr (droppedDoc, Some (0, 0)) \<and>
   sheetRules droppedDoc 0 = [CSSStyleRule ''.a'' []] \<and>
   ruleAt droppedDoc (0, 0) = sheetRules aDoc 0 ! 0 \<and>
   selectorText (ruleAt droppedDoc (0, 0)) \<noteq> ''!!''"
  using empty_ruleAbsent_any [of "''div>p''"] a_ruleAbsent_bang
    respell_getOrCreateRule_spaced respell_getOrCreateRule_dropped
  by (simp add: ruleAt_def sheetRules_def styleSheets_def spacedDoc_def droppedDoc_def aDoc_def)

text \<open>
  Claim C5, as amended. For every name, selector, property and value such that the engine
  (a) on the creation path parses the text with the appended empty rule into the old
  rules followed by an empty plain rule whose selector text is the selector as given,
  (b) parses the serialization of the rule list with the written rule back into that
  list, and (c) returns for \<open>p\<close> the value that was set: \<open>setProperty n selector p v\<close>
  completes, afterwards \<open>getProperty n selector p\<close> returns \<open>v\<close>, and the content of the
  backing node, parsed again, holds a rule that matches the selector and carries the
  declaration. Here \<open>j\<close> is the position of the rule that is written: the first match,
  or the appended rule (there always is one, by \<open>targetRules_firstMatch\<close>).
\<close>

theorem setProperty_getProperty:
  assumes "ruleAbsent selector (namedRules repo d n) \<longrightarrow>
             appendsEmptyRule h (namedRules repo d n) selector"
    and "firstMatch selector (targetRules repo d n selector) j"
    and "reparses h ((targetRules repo d n selector)
           [j := ruleSetProperty h p v (targetRules repo d n selector ! j)])"
    and "storesValue h p v"
  shows "\<exists>d' i.
           setProperty h repo d n selector p v = Inr d' \<and>
           getProperty h repo d' n selector p strict = (d', Some v) \<and>
           resolvesTo repo d' n i \<and>
           (\<exists>r\<in>set (parseCss h (textContent (styleSheets d' ! i))).
              matches selector r \<and> styleGetPropertyValue h (style r) p = v)"
proof -
  define T where "T = targetRules repo d n selector"
  obtain d1 i where g: "getOrCreateRule h repo d n selector = Inr (d1, Some (i, j))"
    and i: "resolvesTo repo d1 n i" and T: "sheetRules d1 i = T"
    using getOrCreateRule_target [OF assms(1,2)] T_def by blast
  have j: "j < length T" "matches selector (T ! j)" "\<forall>k<j. \<not> matches selector (T ! k)"
    using assms(2) by (simp_all add: firstMatch_def T_def)
  then obtain s st where r: "T ! j = CSSStyleRule s st" "endsWith s selector"
    by (cases "T ! j") (auto simp: matches_def)
  define T' where "T' = T[j := ruleSetProperty h p v (T ! j)]"
  have T'j: "T' ! j = CSSStyleRule s (styleSetProperty h st p v)"
    using j(1) r(1) by (simp add: T'_def)
  define d' where "d' = refreshStylesheet h i (updateSheet i (updateRule j (ruleSetProperty h p v)) d1)"
  have at: "ruleAt d1 (i, j) = T ! j"
    using T by (simp add: ruleAt_def sheetRules_def)
  have sp: "setProperty h repo d n selector p v = Inr d'"
    by (simp add: setProperty_def g at r(1) d'_def)
  have "T' = (sheetRules d1 i)[j := ruleSetProperty h p v (sheetRules d1 i ! j)]"
    by (simp add: T'_def T)
  from after_mutation_refresh [OF i d'_def this]
  have a: "resolvesTo repo d' n i"
    "textContent (styleSheets d' ! i) = concat (map (cssText h) T')"
    "sheetRules d' i = parseCss h (concat (map (cssText h) T'))"
    by simp_all
  have rp: "parseCss h (concat (map (cssText h) T')) = T'"
    using assms(3) by (simp add: reparses_def T'_def T_def)
  have fm: "firstMatch selector T' j"
    using j r T'j by (simp add: firstMatch_def T'_def matches_def)
  have gr: "getRule repo d' n selector strict = (d', Some (i, j))"
    using a(1) fm a(3) rp by (simp add: getRule_found)
  have at': "ruleAt d' (i, j) = T' ! j"
    using a(3) rp by (simp add: ruleAt_def sheetRules_def)
  have val: "styleGetPropertyValue h (styleSetProperty h st p v) p = v"
    using assms(4) by (simp add: storesValue_def)
  have gp: "getProperty h repo d' n selector p strict = (d', Some v)"
    by (simp add: getProperty_def gr at' T'j val)
  have "T' ! j \<in> set T'"
    using j(1) by (simp add: T'_def set_update_memI)
  moreover have "matches selector (T' ! j)"
    using fm by (simp add: firstMatch_def)
  ultimately have "\<exists>r\<in>set (parseCss h (textContent (styleSheets d' ! i))).
      matches selector r \<and> styleGetPropertyValue h (style r) p = v"
    using a(2) rp T'j val by (intro bexI [of _ "T' ! j"]) simp_all
  with sp gp a(1) show ?thesis by blast
qed


lemma demo_storesValue: "storesValue demoEngine p v"
  by (simp add: storesValue_def demoEngine_def demoGetPropertyValue_def update_conv')

lemma demo_appends: "appendsEmptyRule demoEngine (namedRules demoRepo emptyDoc ''theme'') ''.card''"
  by (simp add: appendsEmptyRule_def empty_namedRules demoEngine_def demoParseCss_def)

lemma demo_target:
  "targetRules demoRepo emptyDoc ''theme'' ''.card'' = [CSSStyleRule ''.card'' []]"
  by (simp add: targetRules_def empty_namedRules ruleAbsent_def)

lemma demo_firstMatch: "firstMatch ''.card'' (targetRules demoRepo emptyDoc ''theme'' ''.card'') 0"
  by (simp add: demo_target firstMatch_def matches_self)

lemma demo_reparses:
  "reparses demoEngine
     ((targetRules demoRepo emptyDoc ''theme'' ''.card'')
        [0 := ruleSetProperty demoEngine ''color'' ''red''
                (targetRules demoRepo emptyDoc ''theme'' ''.card'' ! 0)])"
  by (simp add: demo_target reparses_def demoEngine_def demoParseCss_def)

lemma a_target: "targetRules demoRepo aDoc ''theme'' ''.a'' = [CSSStyleRule ''.a'' []]"
  by (simp add: targetRules_def a_namedRules ruleAbsent_def matches_self)

lemma a_firstMatch: "firstMatch ''.a'' (targetRules demoRepo aDoc ''theme'' ''.a'') 0"
  by (simp add: a_target firstMatch_def matches_self)

lemma toLowerCase_red: "toLowerCase ''red'' = ''red''"
  by code_simp

lemma respell_storesValue: "storesValue respellEngine ''color'' ''red''"
  by (simp add: storesValue_def respellEngine_def demoGetPropertyValue_def update_conv'
      toLowerCase_red)

lemma respell_reparses:
  "reparses respellEngine
     ((targetRules demoRepo aDoc ''theme'' ''.a'')
        [0 := ruleSetProperty respellEngine ''color'' ''red''
                (targetRules demoRepo aDoc ''theme'' ''.a'' ! 0)])"
  by (simp add: a_target reparses_def respellEngine_def respellParseCss_def toLowerCase_red)

theorem setProperty_getProperty_witness:
  "appendsEmptyRule demoEngine (namedRules demoRepo emptyDoc ''theme'') ''.card'' \<and>
   firstMatch ''.card'' (targetRules demoRepo emptyDoc ''theme'' ''.card'') 0 \<and>
   reparses demoEngine
     ((targetRules demoRepo emptyDoc ''theme'' ''.card'')
        [0 := ruleSetProperty demoEngine ''color'' ''red''
                (targetRules demoRepo emptyDoc ''theme'' ''.card'' ! 0)]) \<and>
   storesValue demoEngine ''color'' ''red'' \<and>
   (\<exists>d'. setProperty demoEngine demoRepo emptyDoc ''theme'' ''.card'' ''color'' ''red'' = Inr d' \<and>
      getProperty demoEngine demoRepo d' ''theme'' ''.card'' ''color'' True = (d', Some ''red'')) \<and>
   \<not> ruleAbsent ''.a'' (namedRules demoRepo aDoc ''theme'') \<and>
   firstMatch ''.a'' (targetRules demoRepo aDoc ''theme'' ''.a'') 0 \<and>
   reparses respellEngine
     ((targetRules demoRepo aDoc ''theme'' ''.a'')
        [0 := ruleSetProperty respellEngine ''color'' ''red''
                (targetRules demoRepo aDoc ''theme'' ''.a'' ! 0)]) \<and>
   storesValue respellEngine ''color'' ''red'' \<and>
   (\<exists>d'. setProperty respellEngine demoRepo aDoc ''theme'' ''.a'' ''color'' ''red'' = Inr d' \<and>
      getProperty respellEngine demoRepo d' ''theme'' ''.a'' ''color'' False = (d', Some ''red''))"
proof -
  have a: "ruleAbsent ''.card'' (namedRules demoRepo emptyDoc ''theme'') \<longrightarrow>
      appendsEmptyRule demoEngine (namedRules demoRepo emptyDoc ''theme'') ''.card''"
    using demo_appends by simp
  from setProperty_getProperty [OF a demo_firstMatch demo_reparses demo_storesValue, of True]
  have first:
    "\<exists>d'. setProperty demoEngine demoRepo emptyDoc ''theme'' ''.card'' ''color'' ''red'' = Inr d' \<and>
      getProperty demoEngine demoRepo d' ''theme'' ''.card'' ''color'' True = (d', Some ''red'')"
    by blast
  have present: "\<not> ruleAbsent ''.a'' (namedRules demoRepo aDoc ''theme'')"
    by (simp add: a_namedRules ruleAbsent_def matches_self)
  then have b: "ruleAbsent ''.a'' (namedRules demoRepo aDoc ''theme'') \<longrightarrow>
      appendsEmptyRule respellEngine (namedRules demoRepo aDoc ''theme'') ''.a''"
    by simp
  from setProperty_getProperty [OF b a_firstMatch respell_reparses respell_storesValue, of False]
  have second:
    "\<exists>d'. setProperty respellEngine demoRepo aDoc ''theme'' ''.a'' ''color'' ''red'' = Inr d' \<and>
      getProperty respellEngine demoRepo d' ''theme'' ''.a'' ''color'' False = (d', Some ''red'')"
    by blast
  from demo_appends demo_firstMatch demo_reparses demo_storesValue first present a_firstMatch
    respell_reparses respell_storesValue second
  show ?thesis by (intro conjI)
qed

text \<open>
  Claim C5 as stated fails where the engine spells the selector or the value its own
  way. After \<open>setProperty\<close> for the selector \<open>div>p\<close> the rule has the selector text
  \<open>div > p\<close>, which does not end with \<open>div>p\<close>: \<open>getProperty\<close> returns absent and
  dispatches \<open>UnknownCssRule\<close>. After \<open>setProperty\<close> with the value \<open>RED\<close>, \<open>getProperty\<close>
  returns \<open>red\<close>.
\<close>

theorem setProperty_getProperty_counterexample:
  "setProperty respellEngine demoRepo emptyDoc ''theme'' ''div>p'' ''color'' ''red'' =
     Inr spacedRedDoc \<and>
   getProperty respellEngine demoRepo spacedRedDoc ''theme'' ''div>p'' ''color'' True =
     (spacedRedDoc\<lparr>dispatched :=
        [UnknownCssRuleEvent ''theme'' ''div>p'' (repoEmitter demoRepo)]\<rparr>, None) \<and>
   setProperty respellEngine demoRepo emptyDoc ''theme'' ''.card'' ''color'' ''RED'' = Inr redDoc \<and>
   getProperty respellEngine demoRepo redDoc ''theme'' ''.card'' ''color'' True =
     (redDoc, Some ''red'') \<and>
   ''red'' \<noteq> ''RED''"
  using respell_setProperty_spaced respell_getProperty_spaced respell_setProperty_upper
    respell_getProperty_upper
  by simp

lemma setProperty_Inr:
  "setProperty h repo d n selector p v = Inr d' \<Longrightarrow>
     \<exists>d1 i j. getOrCreateRule h repo d n selector = Inr (d1, Some (i, j)) \<and>
       d' = refreshStylesheet h i (updateSheet i (updateRule j (ruleSetProperty h p v)) d1)"
  by (auto simp: setProperty_def split: sum.splits option.splits prod.splits if_splits)

lemma createOrUpdateRule_Inr:
  "createOrUpdateRule h repo d n selector contents = Inr d' \<Longrightarrow>
     \<exists>d1 i j. getOrCreateRule h repo d n selector = Inr (d1, Some (i, j)) \<and>
       d' = refreshStylesheet h i
              (updateSheet i (updateRule j (\<lambda>r. setCssText h r contents)) d1)"
  by (auto simp: createOrUpdateRule_def split: sum.splits option.splits prod.splits)

lemma mutation_then_refresh:
  assumes "getOrCreateRule h repo d n selector = Inr (d1, Some (i, j))"
    and "d' = refreshStylesheet h i (updateSheet i (updateRule j g) d1)"
    and "written = (sheetRules d1 i)[j := g (sheetRules d1 i ! j)]"
  shows "resolvesTo repo d' n i \<and>
         textContent (styleSheets d' ! i) = concat (map (cssText h) written) \<and>
         sheetRules d' i = parseCss h (textContent (styleSheets d' ! i)) \<and>
         (reparses h written \<longrightarrow>
            sheetRules d' i = written \<and>
            textContent (styleSheets d' ! i) = serializeStylesheet h (styleSheets d' ! i))"
proof -
  have i: "resolvesTo repo d1 n i"
    using getOrCreateRule_handle [OF assms(1)] by simp
  from after_mutation_refresh [OF i assms(2,3)]
  have a: "resolvesTo repo d' n i"
    "textContent (styleSheets d' ! i) = concat (map (cssText h) written)"
    "sheetRules d' i = parseCss h (concat (map (cssText h) written))"
    by simp_all
  have b: "sheetRules d' i = parseCss h (textContent (styleSheets d' ! i))"
    using a(2,3) by simp
  have c: "reparses h written \<longrightarrow>
      sheetRules d' i = written \<and>
      textContent (styleSheets d' ! i) = serializeStylesheet h (styleSheets d' ! i)"
  proof
    assume "reparses h written"
    then have "sheetRules d' i = written"
      using a(3) by (simp add: reparses_def)
    moreover from this have
      "textContent (styleSheets d' ! i) = serializeStylesheet h (styleSheets d' ! i)"
      using a(2) by (simp add: serializeStylesheet_def sheetRules_def)
    ultimately show "sheetRules d' i = written \<and>
      textContent (styleSheets d' ! i) = serializeStylesheet h (styleSheets d' ! i)"
      by (rule conjI)
  qed
  from a(1) a(2) b c show ?thesis by (intro conjI)
qed

text \<open>
  Claim C9, as amended. After \<open>setProperty\<close> and after \<open>createOrUpdateRule\<close> the content of
  the backing node equals the serialization of the owning sheet's live rule list, the
  concatenation of the \<open>cssText\<close> of every rule in the current order with no separator
  added, provided the engine parses that serialization back into the rule list (the
  content always is the serialization of the rule list as it stood when the rule had
  been written, and the live rule list is the engine's parse of the content). The
  creation path of \<open>getOrCreateRule\<close>, taken alone, is excepted: it serializes nothing
  again and leaves as content the serialization of the previous rule list followed by a
  space, the selector and \<open>{}\<close>.
\<close>

theorem mutations_refresh_content:
  "(setProperty h repo d n selector p v = Inr d' \<longrightarrow>
      (\<exists>d1 i j. getOrCreateRule h repo d n selector = Inr (d1, Some (i, j)) \<and>
         resolvesTo repo d' n i \<and>
         textContent (styleSheets d' ! i) =
           concat (map (cssText h)
             ((sheetRules d1 i)[j := ruleSetProperty h p v (sheetRules d1 i ! j)])) \<and>
         sheetRules d' i = parseCss h (textContent (styleSheets d' ! i)) \<and>
         (reparses h ((sheetRules d1 i)[j := ruleSetProperty h p v (sheetRules d1 i ! j)]) \<longrightarrow>
            sheetRules d' i = (sheetRules d1 i)[j := ruleSetProperty h p v (sheetRules d1 i ! j)] \<and>
            textContent (styleSheets d' ! i) = serializeStylesheet h (styleSheets d' ! i)))) \<and>
   (createOrUpdateRule h repo d n selector contents = Inr d'' \<longrightarrow>
      (\<exists>d1 i j. getOrCreateRule h repo d n selector = Inr (d1, Some (i, j)) \<and>
         resolvesTo repo d'' n i \<and>
         textContent (styleSheets d'' ! i) =
           concat (map (cssText h)
             ((sheetRules d1 i)[j := setCssText h (sheetRules d1 i ! j) contents])) \<and>
         sheetRules d'' i = parseCss h (textContent (styleSheets d'' ! i)) \<and>
         (reparses h ((sheetRules d1 i)[j := setCssText h (sheetRules d1 i ! j) contents]) \<longrightarrow>
            sheetRules d'' i = (sheetRules d1 i)[j := setCssText h (sheetRules d1 i ! j) contents] \<and>
            textContent (styleSheets d'' ! i) = serializeStylesheet h (styleSheets d'' ! i)))) \<and>
   (ruleAbsent selector (namedRules repo d n) \<longrightarrow>
      (\<exists>d3 i r. getOrCreateRule h repo d n selector = Inr (d3, r) \<and>
         resolvesTo repo d3 n i \<and>
         textContent (styleSheets d3 ! i) =
           concat (map (cssText h) (namedRules repo d n)) @ '' '' @ selector @ ''{}'' \<and>
         sheetRules d3 i = parseCss h (textContent (styleSheets d3 ! i))))"
proof (intro conjI impI)
  assume "setProperty h repo d n selector p v = Inr d'"
  then obtain d1 i j where g: "getOrCreateRule h repo d n selector = Inr (d1, Some (i, j))"
    and d': "d' = refreshStylesheet h i (updateSheet i (updateRule j (ruleSetProperty h p v)) d1)"
    using setProperty_Inr by blast
  from mutation_then_refresh [OF g d' refl] g
  show "\<exists>d1 i j. getOrCreateRule h repo d n selector = Inr (d1, Some (i, j)) \<and>
         resolvesTo repo d' n i \<and>
         textContent (styleSheets d' ! i) =
           concat (map (cssText h)
             ((sheetRules d1 i)[j := ruleSetProperty h p v (sheetRules d1 i ! j)])) \<and>
         sheetRules d' i = parseCss h (textContent (styleSheets d' ! i)) \<and>
         (reparses h ((sheetRules d1 i)[j := ruleSetProperty h p v (sheetRules d1 i ! j)]) \<longrightarrow>
            sheetRules d' i = (sheetRules d1 i)[j := ruleSetProperty h p v (sheetRules d1 i ! j)] \<and>
            textContent (styleSheets d' ! i) = serializeStylesheet h (styleSheets d' ! i))"
    by blast
next
  assume "createOrUpdateRule h repo d n selector contents = Inr d''"
  then obtain d1 i j where g: "getOrCreateRule h repo d n selector = Inr (d1, Some (i, j))"
    and d': "d'' = refreshStylesheet h i
              (updateSheet i (updateRule j (\<lambda>r. setCssText h r contents)) d1)"
    using createOrUpdateRule_Inr by blast
  from mutation_then_refresh [OF g d' refl] g
  show "\<exists>d1 i j. getOrCreateRule h repo d n selector = Inr (d1, Some (i, j)) \<and>
         resolvesTo repo d'' n i \<and>
         textContent (styleSheets d'' ! i) =
           concat (map (cssText h)
             ((sheetRules d1 i)[j := setCssText h (sheetRules d1 i ! j) contents])) \<and>
         sheetRules d'' i = parseCss h (textContent (styleSheets d'' ! i)) \<and>
         (reparses h ((sheetRules d1 i)[j := setCssText h (sheetRules d1 i ! j) contents]) \<longrightarrow>
            sheetRules d'' i = (sheetRules d1 i)[j := setCssText h (sheetRules d1 i ! j) contents] \<and>
            textContent (styleSheets d'' ! i) = serializeStylesheet h (styleSheets d'' ! i))"
    by blast
next
  assume miss: "ruleAbsent selector (namedRules repo d n)"
  obtain d2 i where s: "getOrCreateStylesheet repo d n = (d2, Some i)"
    using getOrCreateStylesheet_result [of repo d n] by blast
  note r = getOrCreateRule_created [OF miss s refl, of h]
  show "\<exists>d3 i r. getOrCreateRule h repo d n selector = Inr (d3, r) \<and>
         resolvesTo repo d3 n i \<and>
         textContent (styleSheets d3 ! i) =
           concat (map (cssText h) (namedRules repo d n)) @ '' '' @ selector @ ''{}'' \<and>
         sheetRules d3 i = parseCss h (textContent (styleSheets d3 ! i))"
    using r(1) r(2) r(3) r(4) by (metis (no_types, lifting))
qed

lemma card_rules: "sheetRules cardDoc 0 = [CSSStyleRule ''.card'' []]"
  by (simp add: sheetRules_def styleSheets_def cardDoc_def)

lemma demo_reparses_red: "reparses demoEngine [CSSStyleRule ''.card'' [(''color'', ''red'')]]"
  by (simp add: reparses_def demoEngine_def demoParseCss_def)

lemma demo_reparses_plain: "reparses demoEngine [CSSStyleRule ''.card'' []]"
  by (simp add: reparses_def demoEngine_def demoParseCss_def)

theorem mutations_refresh_content_witness:
  "setProperty demoEngine demoRepo emptyDoc ''theme'' ''.card'' ''color'' ''red'' = Inr redDoc \<and>
   createOrUpdateRule demoEngine demoRepo emptyDoc ''theme'' ''.card'' ''.card { color: blue; }'' =
     Inr plainDoc \<and>
   ruleAbsent ''.card'' (namedRules demoRepo emptyDoc ''theme'') \<and>
   reparses demoEngine [CSSStyleRule ''.card'' [(''color'', ''red'')]] \<and>
   reparses demoEngine [CSSStyleRule ''.card'' []] \<and>
   textContent (styleSheets redDoc ! 0) = serializeStylesheet demoEngine (styleSheets redDoc ! 0) \<and>
   textContent (styleSheets plainDoc ! 0) =
     serializeStylesheet demoEngine (styleSheets plainDoc ! 0) \<and>
   (\<exists>d3 i r. getOrCreateRule demoEngine demoRepo emptyDoc ''theme'' ''.card'' = Inr (d3, r) \<and>
      textContent (styleSheets d3 ! i) = '' .card{}'')"
proof -
  note t = mutations_refresh_content [of demoEngine demoRepo emptyDoc "''theme''" "''.card''"
      "''color''" "''red''" redDoc "''.card { color: blue; }''" plainDoc]
  from t demo_setProperty obtain d1 i j where
    g: "getOrCreateRule demoEngine demoRepo emptyDoc ''theme'' ''.card'' = Inr (d1, Some (i, j))"
    and r: "reparses demoEngine
        ((sheetRules d1 i)[j := ruleSetProperty demoEngine ''color'' ''red'' (sheetRules d1 i ! j)]) \<longrightarrow>
      textContent (styleSheets redDoc ! i) = serializeStylesheet demoEngine (styleSheets redDoc ! i)"
    by blast
  from g demo_getOrCreateRule have e: "d1 = cardDoc" "i = 0" "j = 0"
    by simp_all
  have w: "(sheetRules cardDoc 0)
      [0 := ruleSetProperty demoEngine ''color'' ''red'' (sheetRules cardDoc 0 ! 0)] =
      [CSSStyleRule ''.card'' [(''color'', ''red'')]]"
    by (simp add: card_rules demoEngine_def)
  have red: "textContent (styleSheets redDoc ! 0) =
      serializeStylesheet demoEngine (styleSheets redDoc ! 0)"
    using r demo_reparses_red unfolding e w by blast
  from t demo_createOrUpdateRule obtain e1 k l where
    g2: "getOrCreateRule demoEngine demoRepo emptyDoc ''theme'' ''.card'' = Inr (e1, Some (k, l))"
    and r2: "reparses demoEngine
        ((sheetRules e1 k)[l := setCssText demoEngine (sheetRules e1 k ! l)
           ''.card { color: blue; }'']) \<longrightarrow>
      textContent (styleSheets plainDoc ! k) =
        serializeStylesheet demoEngine (styleSheets plainDoc ! k)"
    by blast
  from g2 demo_getOrCreateRule have e2: "e1 = cardDoc" "k = 0" "l = 0"
    by simp_all
  have w2: "(sheetRules cardDoc 0)
      [0 := setCssText demoEngine (sheetRules cardDoc 0 ! 0) ''.card { color: blue; }''] =
      [CSSStyleRule ''.card'' []]"
    by (simp add: card_rules demoEngine_def)
  have plain: "textContent (styleSheets plainDoc ! 0) =
      serializeStylesheet demoEngine (styleSheets plainDoc ! 0)"
    using r2 demo_reparses_plain unfolding e2 w2 by blast
  from t empty_ruleAbsent obtain d3 m r3 where
    "getOrCreateRule demoEngine demoRepo emptyDoc ''theme'' ''.card'' = Inr (d3, r3)"
    "textContent (styleSheets d3 ! m) =
       concat (map (cssText demoEngine) (namedRules demoRepo emptyDoc ''theme'')) @ '' '' @
       ''.card'' @ ''{}''"
    by blast
  then have third:
    "\<exists>d3 i r. getOrCreateRule demoEngine demoRepo emptyDoc ''theme'' ''.card'' = Inr (d3, r) \<and>
      textContent (styleSheets d3 ! i) = '' .card{}''"
    by (auto simp: empty_namedRules)
  from demo_setProperty demo_createOrUpdateRule empty_ruleAbsent demo_reparses_red
    demo_reparses_plain red plain third
  show ?thesis by (intro conjI)
qed

text \<open>
  Claim C9 as stated fails on the creation path of \<open>getOrCreateRule\<close>: on the empty root,
  with an engine that serializes an empty rule as \<open>selector { }\<close>, the content of the new
  sheet's node is \<open> .card{}\<close> whereas the serialization of its rule list is \<open>.card { }\<close>.
\<close>

theorem getOrCreateRule_content_counterexample:
  "ruleAbsent ''.card'' (namedRules demoRepo emptyDoc ''theme'') \<and>
   getOrCreateRule demoEngine demoRepo emptyDoc ''theme'' ''.card'' = Inr (cardDoc, Some (0, 0)) \<and>
   textContent (styleSheets cardDoc ! 0) = '' .card{}'' \<and>
   serializeStylesheet demoEngine (styleSheets cardDoc ! 0) = ''.card { }'' \<and>
   textContent (styleSheets cardDoc ! 0) \<noteq> serializeStylesheet demoEngine (styleSheets cardDoc ! 0)"
proof -
  have "styleSheets cardDoc ! 0 =
      StyleElement [(''data-stylesheet'', ''theme'')] [CSSStyleRule ''.card'' []] '' .card{}''"
    by (simp add: styleSheets_def cardDoc_def)
  then show ?thesis
    using empty_ruleAbsent demo_getOrCreateRule
    by (simp add: serializeStylesheet_def demoEngine_def)
qed

section \<open>The class without strict lookups\<close>

text \<open>
  The variant without the filter: on a rule list of plain selector rules only, its search
  is the search of \<open>getRule\<close>; a rule without selector text that is reached before a match
  raises.
\<close>

lemma legacyFind_plain_rules:
  "\<forall>x\<in>set xs. isCSSStyleRule (snd x) \<Longrightarrow>
     legacyFind selector xs =
       Inr (find (\<lambda>(j, r). endsWith (selectorText r) selector)
              (filter (\<lambda>(j, r). isCSSStyleRule r) xs))"
proof (induction xs)
  case Nil
  then show ?case by simp
next
  case (Cons x xs)
  obtain j r where x: "x = (j, r)" by (cases x)
  with Cons.prems obtain s st where r: "r = CSSStyleRule s st"
    by (cases r) auto
  show ?case using Cons x r by simp
qed

lemma legacyFind_raises:
  "legacyFind ''.b'' (enumerate 0 (sheetRules demoDoc 0)) = Inl TypeError"
  by (simp add: demo_rules enumerate_eq_zip upt_rec)

lemma legacyGetStylesheet_miss:
  "\<forall>s\<in>set (styleSheets d). getAttribute s ''title'' \<noteq> Some n \<Longrightarrow>
     legacyGetStylesheet em d n =
       (d\<lparr>dispatched := dispatched d @ [UnknownStylesheetEvent n em]\<rparr>, None)"
proof -
  assume a: "\<forall>s\<in>set (styleSheets d). getAttribute s ''title'' \<noteq> Some n"
  have "(case sheetTitle s of Some t \<Rightarrow> Some t | None \<Rightarrow> getAttribute s ''title'') =
      getAttribute s ''title''" for s
    by (simp add: sheetTitle_def split: option.splits)
  then show ?thesis
    using a by (simp add: legacyGetStylesheet_def find_enumerate_None dispatchEvent_def)
qed

end
